theory Spec2Isabelle
  imports Main "HOL-Library.Sublist" "HOL-Library.AList" "HOL-Library.Char_ord"
    "HOL-Library.List_Lexorder" "HOL-Library.Multiset"
begin

section \<open>JavaScript strings\<close>

text \<open>
  A JavaScript string is a sequence of code units. The model covers the code units
  below 256 (type \<^typ>\<open>char\<close>), on which the operations below agree with the
  built-in ones: \<open>includes\<close>, \<open>startsWith\<close>, \<open>split\<close> with a string separator,
  \<open>trim\<close>, \<open>substring\<close> and \<open>replace\<close> with a string pattern (first occurrence).
\<close>

definition NL :: char where
  "NL = CHR 0x0A"

definition includes_str :: "string \<Rightarrow> string \<Rightarrow> bool" where
  "includes_str s t = sublist t s"

definition startsWith :: "string \<Rightarrow> string \<Rightarrow> bool" where
  "startsWith s t = prefix t s"

text \<open>
  \<open>s.split(sep)\<close>: the pieces between the occurrences of \<open>sep\<close>, found from the left
  without overlap; the empty separator gives the single code units.
\<close>

fun split :: "string \<Rightarrow> string \<Rightarrow> string list" where
  "split sep [] = (if sep = [] then [] else [[]])"
| "split sep (c # cs) =
     (if sep = [] then [c] # split sep cs
      else if prefix sep (c # cs) then [] # split sep (drop (length sep) (c # cs))
      else (case split sep cs of [] \<Rightarrow> [[c]] | l # ls \<Rightarrow> (c # l) # ls))"

text \<open>
  \<open>trim\<close> removes white space and line terminators at both ends: TAB, LF, VT, FF, CR,
  SP and NBSP are the ones below 256.
\<close>

definition isWhiteSpace :: "char \<Rightarrow> bool" where
  "isWhiteSpace c =
     (c = CHR 0x09 \<or> c = CHR 0x0A \<or> c = CHR 0x0B \<or> c = CHR 0x0C \<or> c = CHR 0x0D
      \<or> c = CHR 0x20 \<or> c = CHR 0xA0)"

definition trim :: "string \<Rightarrow> string" where
  "trim s = rev (dropWhile isWhiteSpace (rev (dropWhile isWhiteSpace s)))"

definition substring :: "string \<Rightarrow> nat \<Rightarrow> string" where
  "substring s n = drop n s"

text \<open>\<open>xs[0]\<close> of an array of strings, converted to a string where it is used as one.\<close>

definition first_str :: "string list \<Rightarrow> string" where
  "first_str xs = (case xs of [] \<Rightarrow> ''undefined'' | x # _ \<Rightarrow> x)"

text \<open>\<open>xs.indexOf(x)\<close>: the first position of \<open>x\<close>, or \<open>-1\<close>.\<close>

fun indexOf :: "string list \<Rightarrow> string \<Rightarrow> int" where
  "indexOf [] x = - 1"
| "indexOf (y # ys) x =
     (if y = x then 0 else (let i = indexOf ys x in if i < 0 then - 1 else i + 1))"

section \<open>currentPrimes/main.js\<close>

subsection \<open>Data\<close>

text \<open>
  A reward row \<open>{ item, rarity }\<close>, and the entry \<open>{ item, rarity, source }\<close> of a prime.
  An object used as a dictionary is an association list with distinct keys, in the
  order in which \<open>for ... in\<close> and \<open>Object.keys\<close> enumerate it.
\<close>

record reward =
  item :: string
  rarity :: string

record prime_part = reward +
  source :: string

type_synonym relic_data = "(string \<times> reward list) list"
type_synonym primes_data = "(string \<times> prime_part list) list"

subsection \<open>findRelicTableData: the rarity of a row\<close>

text \<open>
  Lines 80 to 90: \<open>rarityText\<close> is the trimmed text of the drop-chance cell, and the
  rarity is decided by an \<open>if\<close> / \<open>else if\<close> chain of \<open>includes\<close> tests.
\<close>

definition rarityOf :: "string \<Rightarrow> string" where
  "rarityOf cellText =
     (let rarityText = trim cellText in
      if includes_str rarityText ''25.33%'' then ''Common''
      else if includes_str rarityText ''11.00%'' then ''Uncommon''
      else if includes_str rarityText ''2.00%'' then ''Rare''
      else '''')"

text \<open>
  The specification's wording of the same classifier: an ordered list of
  (token, label) pairs, the first token contained in the cell string wins.
\<close>

definition rarityTable :: "(string \<times> string) list" where
  "rarityTable = [(''25.33%'', ''Common''), (''11.00%'', ''Uncommon''), (''2.00%'', ''Rare'')]"

fun firstMatch :: "(string \<times> string) list \<Rightarrow> string \<Rightarrow> string" where
  "firstMatch [] s = ''''"
| "firstMatch ((token, label) # rest) s =
     (if sublist token s then label else firstMatch rest s)"

subsection \<open>extractPrimes\<close>

definition primeNameOf :: "string \<Rightarrow> string" where
  "primeNameOf it = first_str (split '' Prime'' it) @ '' Prime''"

definition isPrimePart :: "string \<Rightarrow> bool" where
  "isPrimePart it = (\<not> includes_str it ''Forma'' \<and> includes_str it ''Prime'')"

text \<open>
  The body of the inner \<open>forEach\<close>: \<open>primes[primeName]\<close> is created empty when it is
  missing, then the entry is pushed.
\<close>

definition addReward :: "string \<Rightarrow> reward \<Rightarrow> primes_data \<Rightarrow> primes_data" where
  "addReward relic r primes =
     (if isPrimePart (item r) then
        (let primeName = primeNameOf (item r);
             primes1 = (if map_of primes primeName = None
                        then AList.update primeName [] primes else primes);
             entry = \<lparr>item = item r, rarity = rarity r, source = relic\<rparr>
         in AList.update primeName
              ((case map_of primes1 primeName of None \<Rightarrow> [] | Some es \<Rightarrow> es) @ [entry]) primes1)
      else primes)"

definition extractPrimes :: "relic_data \<Rightarrow> primes_data" where
  "extractPrimes relicData =
     fold (\<lambda>(relic, rewards) primes. fold (addReward relic) rewards primes) relicData []"

subsection \<open>generateMarkdown\<close>

definition rarityOrder :: "string list" where
  "rarityOrder = [''Rare'', ''Uncommon'', ''Common'']"

text \<open>
  \<open>primes[prime].sort((a, b) => rarityOrder.indexOf(a.rarity) - rarityOrder.indexOf(b.rarity))\<close>:
  the comparator is the difference of two integer keys and \<open>Array.prototype.sort\<close> is
  stable, so the result is the stable sort by that key.
\<close>

definition rarityKey :: "prime_part \<Rightarrow> int" where
  "rarityKey p = indexOf rarityOrder (rarity p)"

definition sortedItems :: "prime_part list \<Rightarrow> prime_part list" where
  "sortedItems ps = sort_key rarityKey ps"

definition partLine :: "prime_part \<Rightarrow> string" where
  "partLine p = ''  - '' @ item p @ '' ('' @ rarity p @ '') -> '' @ source p @ [NL]"

text \<open>
  \<open>prime\<close> ranges over the keys of \<open>primes\<close>, so the lookup \<open>primes[prime]\<close> always finds
  a list; the other branch is never taken.
\<close>

definition primeBlock :: "primes_data \<Rightarrow> string \<Rightarrow> string" where
  "primeBlock primes prime =
     ''- '' @ prime @ [NL] @
     concat (map partLine (sortedItems (case map_of primes prime of None \<Rightarrow> [] | Some ps \<Rightarrow> ps)))"

definition rewardLine :: "reward \<Rightarrow> string" where
  "rewardLine r = ''- '' @ item r @ '' ('' @ rarity r @ '')'' @ [NL]"

text \<open>
  \<open>relicLocations[relic.split(' ')[0]]\<close> inside a template literal: the table is the
  lookup function of the caller's object, a missing entry prints as \<open>undefined\<close>.
\<close>

definition locationOf :: "(string \<Rightarrow> string option) \<Rightarrow> string \<Rightarrow> string" where
  "locationOf relicLocations relic =
     (case relicLocations (first_str (split '' '' relic)) of
        None \<Rightarrow> ''undefined'' | Some l \<Rightarrow> l)"

definition relicBlock :: "(string \<Rightarrow> string option) \<Rightarrow> string \<times> reward list \<Rightarrow> string" where
  "relicBlock relicLocations = (\<lambda>(relic, rewards).
     ''## '' @ relic @ [NL, NL] @ concat (map rewardLine rewards) @
     [NL] @ ''**Location**: '' @ locationOf relicLocations relic @ [NL, NL])"

text \<open>The date printed in the first line comes from the clock; it is a parameter here.\<close>

definition primesSection :: "primes_data \<Rightarrow> string" where
  "primesSection primes = concat (map (primeBlock primes) (sort (map fst primes)))"

definition generateMarkdown ::
  "string \<Rightarrow> primes_data \<Rightarrow> relic_data \<Rightarrow> (string \<Rightarrow> string option) \<Rightarrow> string" where
  "generateMarkdown currentDate primes relicData relicLocations =
     ''# Generated on '' @ currentDate @ [NL, NL] @ ''# Primes'' @ [NL, NL] @
     primesSection primes @
     [NL] @ ''# Relics'' @ [NL, NL] @
     concat (map (relicBlock relicLocations) relicData)"

text \<open>The table of \<open>main\<close>.\<close>

definition relicLocations_main :: "string \<Rightarrow> string option" where
  "relicLocations_main =
     [''Lith'' \<mapsto> ''Void/Hepit (Capture)'',
      ''Meso'' \<mapsto> ''Void/Ukko (Capture)'',
      ''Neo'' \<mapsto> ''Void/Ukko (Capture), Lua/Apollo (Disruption)'',
      ''Axi'' \<mapsto> ''Lua/Apollo (Disruption)'']"

section \<open>The converter: WarframeDataParser\<close>

text \<open>
  The repository holds two copies of the converter. Definitions with the suffix \<open>_hc\<close>
  are those of \<open>htmlConverter/htmlConverter.js\<close> (the copy the daily workflow runs),
  definitions with the suffix \<open>_p0\<close> are those of the second copy
  (\<open>unnamed/part_000\<close>); a definition without a suffix is the same in both.
\<close>

subsection \<open>Data\<close>

text \<open>
  A parsed reward \<open>{ part, rarity }\<close>, a parsed part \<open>{ part, rarity, relic }\<close> (where
  \<open>relic\<close> is \<open>undefined\<close>, here \<open>None\<close>, when the line has no \<open>->\<close>), a prime
  \<open>{ name, parts }\<close> and a relic \<open>{ location, rewards }\<close>. A \<open>Map\<close> is an association
  list in insertion order: \<open>set\<close> on a present key replaces the value in place
  (\<^const>\<open>AList.update\<close>).
\<close>

record part_info =
  part :: string
  rarity_p :: string

record prime_part_info = part_info +
  relic :: "string option"

record prime_info =
  name :: string
  parts :: "prime_part_info list"

record relic_info =
  location :: string
  rewards :: "part_info list"

datatype section_name = Primes | Relics | Inherited string

datatype error = TypeError | InvalidPartFormat string | EmptyRewardLine string

record parser =
  primes :: "(string \<times> prime_info) list"
  relics :: "(string \<times> relic_info) list"
  currentSection :: "section_name option"
  currentItem :: "string option"

definition newParser :: parser where
  "newParser = \<lparr>primes = [], relics = [], currentSection = None, currentItem = None\<rparr>"

text \<open>\<open>this.currentItem\<close> as a condition: neither \<open>null\<close> nor the empty string.\<close>

definition truthy :: "string option \<Rightarrow> bool" where
  "truthy x = (case x of None \<Rightarrow> False | Some s \<Rightarrow> s \<noteq> [])"

text \<open>\<open>map.get(this.currentItem)\<close>, with the key.\<close>

definition getCurrent :: "(string \<times> 'a) list \<Rightarrow> string option \<Rightarrow> (string \<times> 'a) option" where
  "getCurrent m cur =
     (case cur of None \<Rightarrow> None
      | Some k \<Rightarrow> (case map_of m k of None \<Rightarrow> None | Some v \<Rightarrow> Some (k, v)))"

subsection \<open>handleSectionHeaders\<close>

text \<open>
  \<open>sections[line]\<close> is a property lookup on an object literal, so besides the two own
  keys it finds the properties inherited from \<open>Object.prototype\<close>, all of them truthy:
  such a line sets \<open>currentSection\<close> to a value that is neither \<open>'primes'\<close> nor
  \<open>'relics'\<close>.
\<close>

definition objectPrototypeKeys :: "string list" where
  "objectPrototypeKeys =
     [''constructor'', ''__defineGetter__'', ''__defineSetter__'', ''hasOwnProperty'',
      ''__lookupGetter__'', ''__lookupSetter__'', ''isPrototypeOf'', ''propertyIsEnumerable'',
      ''toString'', ''valueOf'', ''__proto__'', ''toLocaleString'']"

definition sections :: "string \<Rightarrow> section_name option" where
  "sections line =
     (if line = ''# Primes'' then Some Primes
      else if line = ''# Relics'' then Some Relics
      else if line \<in> set objectPrototypeKeys then Some (Inherited line)
      else None)"

definition handleSectionHeaders :: "string \<Rightarrow> parser \<Rightarrow> bool \<times> parser" where
  "handleSectionHeaders line st =
     (case sections line of
        Some sec \<Rightarrow> (True, st\<lparr>currentSection := Some sec, currentItem := None\<rparr>)
      | None \<Rightarrow> (False, st))"

subsection \<open>htmlConverter.js: parsePartAndRarity, parsePartInfo, parseRewardInfo\<close>

text \<open>
  \<open>const [part, rarityWithParen] = info.split('(').map(s => s.trim())\<close>; the rarity is
  the second piece without its first \<open>)\<close>, or empty when the second piece is missing
  or empty. \<open>split\<close> with a non-empty separator returns at least one piece, so \<open>part\<close>
  is always a string.
\<close>

definition parsePartAndRarity_hc :: "string \<Rightarrow> string \<times> string" where
  "parsePartAndRarity_hc info =
     (case map trim (split ''('' info) of
        [] \<Rightarrow> ([], [])
      | [p] \<Rightarrow> (p, [])
      | p # rarityWithParen # _ \<Rightarrow>
          (p, if rarityWithParen \<noteq> [] then remove1 (CHR '')'') rarityWithParen else []))"

text \<open>\<open>line.replace(/^[- ]+/, '')\<close>: the leading hyphens and spaces are removed.\<close>

definition stripBullet :: "string \<Rightarrow> string" where
  "stripBullet line = dropWhile (\<lambda>c. c = CHR ''-'' \<or> c = CHR '' '') line"

definition parsePartInfo_hc :: "string \<Rightarrow> prime_part_info" where
  "parsePartInfo_hc line =
     (let partLine = stripBullet line in
      case map trim (split ''->'' partLine) of
        [] \<Rightarrow> \<lparr>part = [], rarity_p = [], relic = None\<rparr>
      | [partInfo] \<Rightarrow>
          (let (p, r) = parsePartAndRarity_hc partInfo
           in \<lparr>part = p, rarity_p = r, relic = None\<rparr>)
      | partInfo # relicInfo # _ \<Rightarrow>
          (let (p, r) = parsePartAndRarity_hc partInfo
           in \<lparr>part = p, rarity_p = r, relic = Some relicInfo\<rparr>))"

definition parseRewardInfo_hc :: "string \<Rightarrow> part_info" where
  "parseRewardInfo_hc line =
     (let rewardLine = substring line 2;
          (p, r) = parsePartAndRarity_hc rewardLine
      in \<lparr>part = p, rarity_p = r\<rparr>)"

subsection \<open>htmlConverter.js: the section handlers and parse\<close>

text \<open>
  A handler returns its boolean and the parser after its assignments. Reading a
  property of \<open>undefined\<close> (a \<open>get\<close> that finds nothing, a missing array element) is
  the \<open>TypeError\<close> that \<open>parse\<close> would let escape.
\<close>

definition handlePrimeSection_hc :: "string \<Rightarrow> parser \<Rightarrow> error + (bool \<times> parser)" where
  "handlePrimeSection_hc line st =
     (if currentSection st \<noteq> Some Primes then Inr (False, st)
      else if startsWith line ''- '' \<and> \<not> includes_str line ''->'' then
        (let primeName = substring line 2 in
         Inr (True, st\<lparr>primes := AList.update primeName \<lparr>name = primeName, parts = []\<rparr> (primes st),
                        currentItem := Some primeName\<rparr>))
      else if (startsWith line ''  - '' \<or> (startsWith line ''- '' \<and> includes_str line ''->''))
              \<and> truthy (currentItem st) then
        (let partInfo = parsePartInfo_hc line in
         case getCurrent (primes st) (currentItem st) of
           None \<Rightarrow> Inl TypeError
         | Some (cur, info) \<Rightarrow>
             Inr (True, st\<lparr>primes :=
               AList.update cur (info\<lparr>parts := parts info @ [partInfo]\<rparr>) (primes st)\<rparr>))
      else Inr (False, st))"

definition handleRelicSection_hc :: "string \<Rightarrow> parser \<Rightarrow> error + (bool \<times> parser)" where
  "handleRelicSection_hc line st =
     (if currentSection st \<noteq> Some Relics then Inr (False, st)
      else if startsWith line ''## '' then
        (let relicName = substring line 3 in
         Inr (True, st\<lparr>relics := AList.update relicName \<lparr>location = [], rewards = []\<rparr> (relics st),
                        currentItem := Some relicName\<rparr>))
      else if startsWith line ''**Location**:'' \<and> truthy (currentItem st) then
        (case getCurrent (relics st) (currentItem st) of
           None \<Rightarrow> Inl TypeError
         | Some (cur, info) \<Rightarrow>
             (case split '':'' line of
                _ # l # _ \<Rightarrow>
                  Inr (True, st\<lparr>relics := AList.update cur (info\<lparr>location := trim l\<rparr>) (relics st)\<rparr>)
              | _ \<Rightarrow> Inl TypeError))
      else if startsWith line ''- '' \<and> truthy (currentItem st) then
        (let reward = parseRewardInfo_hc line in
         case getCurrent (relics st) (currentItem st) of
           None \<Rightarrow> Inl TypeError
         | Some (cur, info) \<Rightarrow>
             Inr (True, st\<lparr>relics :=
               AList.update cur (info\<lparr>rewards := rewards info @ [reward]\<rparr>) (relics st)\<rparr>))
      else Inr (False, st))"

text \<open>
  The body of the \<open>forEach\<close> in \<open>parse\<close>: an empty line is skipped, otherwise
  \<open>handleSectionHeaders(line) || handlePrimeSection(line) || handleRelicSection(line)\<close>.
\<close>

definition handleLine_hc :: "string \<Rightarrow> parser \<Rightarrow> error + parser" where
  "handleLine_hc line st =
     (if line = [] then Inr st
      else case handleSectionHeaders line st of
        (True, st1) \<Rightarrow> Inr st1
      | (False, st1) \<Rightarrow>
          (case handlePrimeSection_hc line st1 of
             Inl e \<Rightarrow> Inl e
           | Inr (True, st2) \<Rightarrow> Inr st2
           | Inr (False, st2) \<Rightarrow>
               (case handleRelicSection_hc line st2 of
                  Inl e \<Rightarrow> Inl e
                | Inr (_, st3) \<Rightarrow> Inr st3)))"

fun run_hc :: "string list \<Rightarrow> parser \<Rightarrow> error + parser" where
  "run_hc [] st = Inr st"
| "run_hc (l # ls) st = (case handleLine_hc l st of Inl e \<Rightarrow> Inl e | Inr st1 \<Rightarrow> run_hc ls st1)"

text \<open>\<open>content.trim().split('\n').map(line => line.trim())\<close>.\<close>

definition linesOf :: "string \<Rightarrow> string list" where
  "linesOf content = map trim (split [NL] (trim content))"

text \<open>
  The result \<open>{ primes: Object.fromEntries(this.primes), relics: Object.fromEntries(this.relics) }\<close>
  of a new parser: the two dictionaries, with the entries of the maps.
\<close>

record parsed =
  primes_of :: "(string \<times> prime_info) list"
  relics_of :: "(string \<times> relic_info) list"

definition result :: "parser \<Rightarrow> parsed" where
  "result st = \<lparr>primes_of = primes st, relics_of = relics st\<rparr>"

definition parse_hc :: "string \<Rightarrow> error + parsed" where
  "parse_hc content =
     (case run_hc (linesOf content) newParser of Inl e \<Rightarrow> Inl e | Inr st \<Rightarrow> Inr (result st))"

subsection \<open>part_000: parsePartAndRarity, parsePartInfo, parseRewardInfo\<close>

text \<open>
  \<open>info.match(/\(([^)]+)\)$/)\<close>: the leftmost \<open>(\<close> that is followed by one or more
  code units other than \<open>)\<close> and then by a \<open>)\<close> that ends the string. The result is
  the index of the match and the captured group.
\<close>

definition parenTail :: "string \<Rightarrow> bool" where
  "parenTail r =
     (case rev r of [] \<Rightarrow> False
      | c # b \<Rightarrow> c = CHR '')'' \<and> b \<noteq> [] \<and> CHR '')'' \<notin> set b)"

fun rarityMatch :: "string \<Rightarrow> (nat \<times> string) option" where
  "rarityMatch [] = None"
| "rarityMatch (c # cs) =
     (if c = CHR ''('' \<and> parenTail cs then Some (0, butlast cs)
      else map_option (\<lambda>(i, r). (Suc i, r)) (rarityMatch cs))"

definition parsePartAndRarity_p0 :: "string \<Rightarrow> string \<times> string" where
  "parsePartAndRarity_p0 info =
     (if info = [] then ([], [])
      else case rarityMatch info of
        None \<Rightarrow> (info, [])
      | Some (i, r) \<Rightarrow> (trim (take i info), trim r))"

definition parsePartInfo_p0 :: "string \<Rightarrow> error + prime_part_info" where
  "parsePartInfo_p0 line =
     (let partLine = stripBullet line in
      case map trim (split ''->'' partLine) of
        partInfo # relicInfo # _ \<Rightarrow>
          (let (p, r) = parsePartAndRarity_p0 partInfo
           in Inr \<lparr>part = p, rarity_p = r, relic = Some relicInfo\<rparr>)
      | _ \<Rightarrow> Inl (InvalidPartFormat line))"

definition parseRewardInfo_p0 :: "string \<Rightarrow> error + part_info" where
  "parseRewardInfo_p0 line =
     (let rewardLine = trim (substring line 2) in
      if rewardLine = [] then Inl (EmptyRewardLine line)
      else (let (p, r) = parsePartAndRarity_p0 rewardLine
            in Inr \<lparr>part = p, rarity_p = r\<rparr>))"

subsection \<open>part_000: the section handlers and parse\<close>

text \<open>
  The part and reward branches run inside \<open>try\<close>: whatever is thrown there (the two
  errors above, or the \<open>TypeError\<close> of a \<open>get\<close> that finds nothing) is caught, the
  handler returns \<open>false\<close> and the parser is unchanged.
\<close>

definition handlePrimeSection_p0 :: "string \<Rightarrow> parser \<Rightarrow> bool \<times> parser" where
  "handlePrimeSection_p0 line st =
     (if currentSection st \<noteq> Some Primes then (False, st)
      else if startsWith line ''- '' \<and> \<not> includes_str line ''->'' then
        (let primeName = trim (substring line 2) in
         if primeName = [] then (False, st)
         else (True, st\<lparr>primes := AList.update primeName \<lparr>name = primeName, parts = []\<rparr> (primes st),
                         currentItem := Some primeName\<rparr>))
      else if truthy (currentItem st)
              \<and> (startsWith line ''  - '' \<or> (startsWith line ''- '' \<and> includes_str line ''->'')) then
        (case parsePartInfo_p0 line of
           Inl e \<Rightarrow> (False, st)
         | Inr partInfo \<Rightarrow>
             (case getCurrent (primes st) (currentItem st) of
                None \<Rightarrow> (False, st)
              | Some (cur, info) \<Rightarrow>
                  (True, st\<lparr>primes :=
                    AList.update cur (info\<lparr>parts := parts info @ [partInfo]\<rparr>) (primes st)\<rparr>)))
      else (False, st))"

text \<open>\<open>xs.join(sep)\<close>.\<close>

fun join :: "string \<Rightarrow> string list \<Rightarrow> string" where
  "join sep [] = []"
| "join sep [x] = x"
| "join sep (x # y # ys) = x @ sep @ join sep (y # ys)"

definition handleRelicSection_p0 :: "string \<Rightarrow> parser \<Rightarrow> error + (bool \<times> parser)" where
  "handleRelicSection_p0 line st =
     (if currentSection st \<noteq> Some Relics then Inr (False, st)
      else if startsWith line ''## '' then
        (let relicName = trim (substring line 3) in
         if relicName = [] then Inr (False, st)
         else Inr (True, st\<lparr>relics := AList.update relicName \<lparr>location = [], rewards = []\<rparr> (relics st),
                             currentItem := Some relicName\<rparr>))
      else if \<not> truthy (currentItem st) then Inr (False, st)
      else if startsWith line ''**Location**:'' then
        (let loc = trim (join '':'' (drop 1 (split '':'' line))) in
         case getCurrent (relics st) (currentItem st) of
           None \<Rightarrow> Inl TypeError
         | Some (cur, info) \<Rightarrow>
             Inr (True, st\<lparr>relics := AList.update cur (info\<lparr>location := loc\<rparr>) (relics st)\<rparr>))
      else if startsWith line ''- '' then
        (case parseRewardInfo_p0 line of
           Inl e \<Rightarrow> Inr (False, st)
         | Inr reward \<Rightarrow>
             (case getCurrent (relics st) (currentItem st) of
                None \<Rightarrow> Inr (False, st)
              | Some (cur, info) \<Rightarrow>
                  Inr (True, st\<lparr>relics :=
                    AList.update cur (info\<lparr>rewards := rewards info @ [reward]\<rparr>) (relics st)\<rparr>)))
      else Inr (False, st))"

definition handleLine_p0 :: "string \<Rightarrow> parser \<Rightarrow> error + parser" where
  "handleLine_p0 line st =
     (if line = [] then Inr st
      else case handleSectionHeaders line st of
        (True, st1) \<Rightarrow> Inr st1
      | (False, st1) \<Rightarrow>
          (case handlePrimeSection_p0 line st1 of
             (True, st2) \<Rightarrow> Inr st2
           | (False, st2) \<Rightarrow>
               (case handleRelicSection_p0 line st2 of
                  Inl e \<Rightarrow> Inl e
                | Inr (_, st3) \<Rightarrow> Inr st3)))"

fun run_p0 :: "string list \<Rightarrow> parser \<Rightarrow> error + parser" where
  "run_p0 [] st = Inr st"
| "run_p0 (l # ls) st = (case handleLine_p0 l st of Inl e \<Rightarrow> Inl e | Inr st1 \<Rightarrow> run_p0 ls st1)"

definition parse_p0 :: "string \<Rightarrow> error + parsed" where
  "parse_p0 content =
     (case run_p0 (linesOf content) newParser of Inl e \<Rightarrow> Inl e | Inr st \<Rightarrow> Inr (result st))"

section \<open>The converter: HTMLGenerator\<close>

subsection \<open>separateWarframesWeapons\<close>

text \<open>
  \<open>separated.warframes[name] = info\<close> on an object literal: an assignment to the key
  \<open>__proto__\<close> runs the setter inherited from \<open>Object.prototype\<close>, which changes the
  prototype and adds no property.
\<close>

definition setProperty :: "string \<Rightarrow> 'a \<Rightarrow> (string \<times> 'a) list \<Rightarrow> (string \<times> 'a) list" where
  "setProperty k v obj = (if k = ''__proto__'' then obj else AList.update k v obj)"

record separated =
  warframes :: "(string \<times> prime_info) list"
  weapons :: "(string \<times> prime_info) list"

definition isWarframe_hc :: "prime_info \<Rightarrow> bool" where
  "isWarframe_hc info = list_ex (\<lambda>p. includes_str (part p) ''Systems'') (parts info)"

definition isWarframe_p0 :: "prime_info \<Rightarrow> bool" where
  "isWarframe_p0 info =
     list_ex (\<lambda>p. includes_str (part p) ''Systems'' \<or> includes_str (part p) ''Chassis''
                 \<or> includes_str (part p) ''Neuroptics'') (parts info)"

definition separateStep ::
  "(prime_info \<Rightarrow> bool) \<Rightarrow> string \<times> prime_info \<Rightarrow> separated \<Rightarrow> separated" where
  "separateStep isWarframe = (\<lambda>(nm, info) sep.
     if isWarframe info then sep\<lparr>warframes := setProperty nm info (warframes sep)\<rparr>
     else sep\<lparr>weapons := setProperty nm info (weapons sep)\<rparr>)"

definition separateWarframesWeapons_hc :: "(string \<times> prime_info) list \<Rightarrow> separated" where
  "separateWarframesWeapons_hc entries =
     fold (separateStep isWarframe_hc) entries \<lparr>warframes = [], weapons = []\<rparr>"

definition separateWarframesWeapons_p0 :: "(string \<times> prime_info) list \<Rightarrow> separated" where
  "separateWarframesWeapons_p0 entries =
     fold (separateStep isWarframe_p0) entries \<lparr>warframes = [], weapons = []\<rparr>"

subsection \<open>The page script: escapeHtml, groupParts, renderPrimeItem\<close>

text \<open>
  The page script is the text of a template literal of \<open>getScript\<close>; it runs in the
  browser on the embedded data. Markup is a list of fragments: the fixed text of a
  template (\<open>Lit\<close>, with each run of line breaks and indentation written as one
  space), a fixed character above 255 by its code point (\<open>Glyph\<close>), and the text
  that a \<open>${...}\<close> hole inserts (\<open>Ins\<close>).
\<close>

datatype fragment = Lit string | Glyph nat | Ins string

text \<open>\<open>s.replace(/c/g, r)\<close> for a single character \<open>c\<close>.\<close>

definition replaceAll :: "char \<Rightarrow> string \<Rightarrow> string \<Rightarrow> string" where
  "replaceAll c r s = concat (map (\<lambda>x. if x = c then r else [x]) s)"

text \<open>\<open>utils.escapeHtml\<close>; only part_000 has it.\<close>

definition escapeHtml :: "string \<Rightarrow> string" where
  "escapeHtml unsafe =
     replaceAll (CHR 0x27) ''&#039;''
       (replaceAll (CHR 0x22) ''&quot;''
         (replaceAll (CHR ''>'') ''&gt;''
           (replaceAll (CHR ''<'') ''&lt;''
             (replaceAll (CHR ''&'') ''&amp;'' unsafe))))"

text \<open>
  \<open>[...new Set(xs)]\<close> keeps the first occurrence of each element. An inserted value
  that is \<open>undefined\<close> prints as that word.
\<close>

definition uniq :: "'a list \<Rightarrow> 'a list" where
  "uniq xs = rev (remdups (rev xs))"

definition shown :: "string option \<Rightarrow> string" where
  "shown x = (case x of None \<Rightarrow> ''undefined'' | Some s \<Rightarrow> s)"

text \<open>
  \<open>utils.groupParts\<close>: a \<open>Map\<close> from the key \<open>part|rarity\<close> to the group
  \<open>(part, rarity, relics)\<close>. The order that \<open>sortRelics\<close> returns depends on the engine
  (its comparator yields \<open>NaN\<close> for an unknown tier in htmlConverter.js and uses
  \<open>localeCompare\<close> in part_000), so the sort is a parameter.
\<close>

type_synonym part_group = "string \<times> string \<times> string option list"

definition groupKey :: "string \<Rightarrow> string \<Rightarrow> string" where
  "groupKey p r = p @ ''|'' @ r"

definition pushRelic ::
  "string \<Rightarrow> string \<Rightarrow> string \<Rightarrow> string option list \<Rightarrow> (string \<times> part_group) list
     \<Rightarrow> (string \<times> part_group) list" where
  "pushRelic key p r new grouped =
     (let grouped1 = (if map_of grouped key = None
                      then AList.update key (p, r, []) grouped else grouped)
      in case map_of grouped1 key of
           None \<Rightarrow> grouped1
         | Some (gp, gr, rs) \<Rightarrow> AList.update key (gp, gr, rs @ new) grouped1)"

definition groupParts_hc ::
  "(string option list \<Rightarrow> string option list) \<Rightarrow> prime_part_info list \<Rightarrow> part_group list" where
  "groupParts_hc sortRelics ps =
     map (\<lambda>(key, (gp, gr, rs)). (gp, gr, sortRelics (uniq rs)))
       (fold (\<lambda>p. pushRelic (groupKey (part p) (rarity_p p)) (part p) (rarity_p p) [relic p]) ps [])"

definition groupParts_p0 ::
  "(string option list \<Rightarrow> string option list) \<Rightarrow> prime_part_info list \<Rightarrow> part_group list" where
  "groupParts_p0 sortRelics ps =
     map (\<lambda>(key, (gp, gr, rs)). (gp, gr, sortRelics (uniq (filter truthy rs))))
       (fold (\<lambda>p grouped.
                if part p = [] then grouped
                else pushRelic (groupKey (part p) (rarity_p p)) (part p) (rarity_p p)
                       (if truthy (relic p) then [relic p] else []) grouped) ps [])"

text \<open>\<open>xs.map(f).join(sep)\<close> on fragments.\<close>

fun joinFragments :: "fragment list \<Rightarrow> fragment list list \<Rightarrow> fragment list" where
  "joinFragments sep [] = []"
| "joinFragments sep [x] = x"
| "joinFragments sep (x # y # ys) = x @ sep @ joinFragments sep (y # ys)"

definition renderRelicSpan_hc :: "string option \<Rightarrow> fragment list" where
  \<open>renderRelicSpan_hc r =
     [Lit ('' <span class="relic-hover" onmouseover="controller.showRelicPopup('' @ [CHR 0x27]),
      Ins (shown r),
      Lit ''')" onmouseout="controller.hideRelicPopup()"> '',
      Ins (shown r),
      Lit '' </span> '']\<close>

definition renderPart_hc :: "part_group \<Rightarrow> fragment list" where
  \<open>renderPart_hc = (\<lambda>(gp, gr, rs).
     [Lit '' <li class="part-item"> <span class="rarity-'', Ins gr, Lit ''">'', Ins gp,
      Lit ''</span> <span>'', Glyph 0x2192, Lit ''</span> <span class="part-link"> ''] @
     joinFragments [Lit '' > ''] (map renderRelicSpan_hc rs) @
     [Lit '' </span> </li> ''])\<close>

definition renderPrimeItem_hc ::
  "(string option list \<Rightarrow> string option list) \<Rightarrow> string list \<Rightarrow> string \<Rightarrow> prime_info
     \<Rightarrow> fragment list" where
  \<open>renderPrimeItem_hc sortRelics expandedItems nm info =
     (let groupedParts = groupParts_hc sortRelics (parts info) in
      [Lit ('' <div class="prime-item"> <div class="prime-header" onclick="controller.toggleItem(''
            @ [CHR 0x27]),
       Ins nm,
       Lit ''')"> <span>'', Ins nm, Lit ''</span> <span>'',
       Glyph (if nm \<in> set expandedItems then 0x25BC else 0x25B6),
       Lit ''</span> </div> <div class="prime-content '',
       Lit (if nm \<in> set expandedItems then ''active'' else ''''),
       Lit ''"> <ul class="part-list"> ''] @
      concat (map renderPart_hc groupedParts) @
      [Lit '' </ul> </div> </div> ''])\<close>

definition renderRelicSpan_p0 :: "string option \<Rightarrow> fragment list" where
  \<open>renderRelicSpan_p0 r =
     [Lit ('' <span class="relic-hover" onmouseover="controller.showRelicPopup('' @ [CHR 0x27]),
      Ins (escapeHtml (shown r)),
      Lit ''')" onmouseout="controller.hideRelicPopupWithDelay()"> '',
      Ins (escapeHtml (shown r)),
      Lit '' </span> '']\<close>

definition renderPart_p0 :: "part_group \<Rightarrow> fragment list" where
  \<open>renderPart_p0 = (\<lambda>(gp, gr, rs).
     [Lit '' <li class="part-item"> <span class="rarity-'', Ins gr, Lit ''">'',
      Ins (escapeHtml gp),
      Lit ''</span> <span>'', Glyph 0x2192, Lit ''</span> <span class="part-link"> ''] @
     joinFragments [Lit '' > ''] (map renderRelicSpan_p0 rs) @
     [Lit '' </span> </li> ''])\<close>

definition renderPrimeItem_p0 ::
  "(string option list \<Rightarrow> string option list) \<Rightarrow> string list \<Rightarrow> string \<Rightarrow> prime_info
     \<Rightarrow> fragment list" where
  \<open>renderPrimeItem_p0 sortRelics expandedItems nm info =
     (let escapedName = escapeHtml nm;
          groupedParts = groupParts_p0 sortRelics (parts info) in
      [Lit ('' <div class="prime-item"> <div class="prime-header" onclick="controller.toggleItem(''
            @ [CHR 0x27]),
       Ins escapedName,
       Lit ''')"> <span>'', Ins escapedName, Lit ''</span> <span>'',
       Glyph (if nm \<in> set expandedItems then 0x25BC else 0x25B6),
       Lit ''</span> </div> <div class="prime-content '',
       Lit (if nm \<in> set expandedItems then ''active'' else ''''),
       Lit ''"> <ul class="part-list"> ''] @
      concat (map renderPart_p0 groupedParts) @
      [Lit '' </ul> </div> </div> ''])\<close>

section \<open>Facts about the string operations\<close>

lemma sublist_dropWhile_iff:
  assumes "t \<noteq> []" "\<not> P (hd t)"
  shows "sublist t (dropWhile P s) = sublist t s"
proof (induction s)
  case Nil
  show ?case by simp
next
  case (Cons c s)
  show ?case
  proof (cases "P c")
    case True
    with assms have "\<not> prefix t (c # s)"
      by (cases t) auto
    with True Cons show ?thesis
      by (simp add: sublist_Cons_right)
  next
    case False
    then show ?thesis by simp
  qed
qed

lemma sublist_trim_iff:
  assumes "t \<noteq> []" "\<not> isWhiteSpace (hd t)" "\<not> isWhiteSpace (last t)"
  shows "sublist t (trim s) = sublist t s"
proof -
  have r: "rev t \<noteq> []" "\<not> isWhiteSpace (hd (rev t))"
    using assms by (simp_all add: hd_rev)
  have "sublist t (trim s) = sublist (rev t) (dropWhile isWhiteSpace (rev (dropWhile isWhiteSpace s)))"
    unfolding trim_def by (simp add: sublist_rev_right)
  also have "\<dots> = sublist (rev t) (rev (dropWhile isWhiteSpace s))"
    by (rule sublist_dropWhile_iff [where P = isWhiteSpace, OF r])
  also have "\<dots> = sublist t (dropWhile isWhiteSpace s)"
    by simp
  also have "\<dots> = sublist t s"
    by (rule sublist_dropWhile_iff [where P = isWhiteSpace, OF assms(1,2)])
  finally show ?thesis .
qed

lemma split_not_Nil: "sep \<noteq> [] \<Longrightarrow> split sep s \<noteq> []"
  by (induction sep s rule: split.induct) (auto split: list.splits)

lemma split_no_occurrence:
  "sep \<noteq> [] \<Longrightarrow> \<not> sublist sep s \<Longrightarrow> split sep s = [s]"
proof (induction s)
  case Nil
  then show ?case by simp
next
  case (Cons c s)
  then show ?case
    by (simp add: sublist_Cons_right)
qed

lemma prefix_of_long_append:
  "prefix p (u @ v) \<Longrightarrow> length p \<le> length u \<Longrightarrow> prefix p u"
  by (auto simp: prefix_def append_eq_append_conv2)
     

lemma split_first_occurrence:
  assumes "sep \<noteq> []" "\<not> sublist sep (a @ butlast sep)"
  shows "split sep (a @ sep @ b) = a # split sep b"
  using assms(2)
proof (induction a)
  case Nil
  obtain c cs where sep: "sep = c # cs"
    using assms(1) by (cases sep) auto
  have "split sep (sep @ b) = [] # split sep (drop (length sep) (sep @ b))"
    unfolding sep by simp
  then show ?case by simp
next
  case (Cons x a)
  have np: "\<not> prefix sep ((x # a) @ sep @ b)"
  proof
    assume p: "prefix sep ((x # a) @ sep @ b)"
    have "sep @ b = butlast sep @ (last sep # b)"
      using assms(1) by (metis append_butlast_last_id append.assoc append_Cons append_Nil)
    then have "(x # a) @ sep @ b = ((x # a) @ butlast sep) @ (last sep # b)"
      by simp
    with p have "prefix sep (((x # a) @ butlast sep) @ (last sep # b))"
      by (simp only:)
    then have "prefix sep ((x # a) @ butlast sep)"
      by (rule prefix_of_long_append) simp
    with Cons.prems show False
      by (meson prefix_imp_sublist)
  qed
  have "\<not> sublist sep (a @ butlast sep)"
    using Cons.prems by (simp add: sublist_Cons_right)
  then have ih: "split sep (a @ sep @ b) = a # split sep b"
    by (rule Cons.IH)
  show ?case
    using np ih assms(1) by simp
qed

lemma sublist_single: "sublist [c] s = (c \<in> set s)"
  by (induction s) (auto simp: sublist_Cons_right)

lemma split_char_first:
  "c \<notin> set a \<Longrightarrow> split [c] (a @ c # b) = a # split [c] b"
  using split_first_occurrence [of "[c]" a b] by (simp add: sublist_single)

lemma split_char_none: "c \<notin> set s \<Longrightarrow> split [c] s = [s]"
  by (rule split_no_occurrence) (simp_all add: sublist_single)

section \<open>The rarity of a row\<close>

lemma includes_trim_token:
  "includes_str (trim s) ''25.33%'' = includes_str s ''25.33%''"
  "includes_str (trim s) ''11.00%'' = includes_str s ''11.00%''"
  "includes_str (trim s) ''2.00%'' = includes_str s ''2.00%''"
  unfolding includes_str_def by (rule sublist_trim_iff; simp add: isWhiteSpace_def)+

text \<open>
  Claim C6. The rarity computed in \<open>findRelicTableData\<close> is a function of the text of
  the drop-chance cell alone: it is the label of the first of the tokens \<open>25.33%\<close>,
  \<open>11.00%\<close>, \<open>2.00%\<close> (in this order) that the cell text contains, and the empty
  string when it contains none. The \<open>trim\<close> applied to the cell text first changes
  nothing, since no token begins or ends with white space.
\<close>

theorem rarityOf_first_match:
  "rarityOf s = firstMatch rarityTable s \<and>
   rarityOf s =
     (if includes_str s ''25.33%'' then ''Common''
      else if includes_str s ''11.00%'' then ''Uncommon''
      else if includes_str s ''2.00%'' then ''Rare''
      else '''')"
  by (simp add: rarityOf_def rarityTable_def includes_trim_token Let_def)
     (simp add: includes_str_def)

section \<open>extractPrimes groups the prime parts by name\<close>

text \<open>
  The entries of all relics in scan order, each with its relic as source, and those of
  them that \<open>extractPrimes\<close> keeps.
\<close>

definition entriesOf :: "relic_data \<Rightarrow> prime_part list" where
  "entriesOf relicData =
     concat (map (\<lambda>(r, rs). map (\<lambda>x. \<lparr>item = item x, rarity = rarity x, source = r\<rparr>) rs) relicData)"

definition primeEntries :: "relic_data \<Rightarrow> prime_part list" where
  "primeEntries relicData = filter (\<lambda>e. isPrimePart (item e)) (entriesOf relicData)"

definition addEntry :: "prime_part \<Rightarrow> primes_data \<Rightarrow> primes_data" where
  "addEntry e ps =
     AList.update (primeNameOf (item e))
       ((case map_of ps (primeNameOf (item e)) of None \<Rightarrow> [] | Some es \<Rightarrow> es) @ [e]) ps"

lemma addReward_addEntry:
  "addReward r x ps =
     (if isPrimePart (item x) then addEntry \<lparr>item = item x, rarity = rarity x, source = r\<rparr> ps else ps)"
  by (simp add: addReward_def addEntry_def Let_def update_conv')

lemma fold_addReward:
  "fold (addReward r) rs ps =
     fold addEntry (filter (\<lambda>e. isPrimePart (item e))
       (map (\<lambda>x. \<lparr>item = item x, rarity = rarity x, source = r\<rparr>) rs)) ps"
  by (induction rs arbitrary: ps) (simp_all add: addReward_addEntry)

lemma fold_relics:
  "fold (\<lambda>(r, rs) ps. fold (addReward r) rs ps) rd ps = fold addEntry (primeEntries rd) ps"
  by (induction rd arbitrary: ps)
     (auto simp: primeEntries_def entriesOf_def fold_addReward)

lemma extractPrimes_fold: "extractPrimes rd = fold addEntry (primeEntries rd) []"
  by (simp add: extractPrimes_def fold_relics)

lemma map_of_addEntry:
  "map_of (addEntry e ps) k =
     (if primeNameOf (item e) = k
      then Some ((case map_of ps k of None \<Rightarrow> [] | Some es \<Rightarrow> es) @ [e])
      else map_of ps k)"
  by (simp add: addEntry_def update_conv')

lemma map_of_fold_addEntry:
  "map_of (fold addEntry es ps) k =
     (let new = filter (\<lambda>e. primeNameOf (item e) = k) es in
      case map_of ps k of
        None \<Rightarrow> (if new = [] then None else Some new)
      | Some old \<Rightarrow> Some (old @ new))"
proof (induction es arbitrary: ps)
  case Nil
  show ?case by (simp split: option.splits)
next
  case (Cons e es)
  have "map_of (fold addEntry (e # es) ps) k = map_of (fold addEntry es (addEntry e ps)) k"
    by simp
  also have "\<dots> =
     (let new = filter (\<lambda>e. primeNameOf (item e) = k) es in
      case map_of (addEntry e ps) k of
        None \<Rightarrow> (if new = [] then None else Some new)
      | Some old \<Rightarrow> Some (old @ new))"
    by (rule Cons.IH)
  also have "\<dots> =
     (let new = filter (\<lambda>e. primeNameOf (item e) = k) (e # es) in
      case map_of ps k of
        None \<Rightarrow> (if new = [] then None else Some new)
      | Some old \<Rightarrow> Some (old @ new))"
    by (simp add: map_of_addEntry Let_def split: option.splits)
  finally show ?case .
qed

lemma distinct_fold_addEntry:
  "distinct (map fst ps) \<Longrightarrow> distinct (map fst (fold addEntry es ps))"
  by (induction es arbitrary: ps) (simp_all add: addEntry_def distinct_update)

lemma map_of_extractPrimes:
  "map_of (extractPrimes rd) k =
     (let es = filter (\<lambda>e. primeNameOf (item e) = k) (primeEntries rd)
      in if es = [] then None else Some es)"
  by (simp add: extractPrimes_fold map_of_fold_addEntry)

lemma distinct_extractPrimes: "distinct (map fst (extractPrimes rd))"
  by (simp add: extractPrimes_fold distinct_fold_addEntry)

lemma extractPrimes_entry:
  assumes "(k, ps) \<in> set (extractPrimes rd)"
  shows "ps = filter (\<lambda>e. primeNameOf (item e) = k) (primeEntries rd) \<and> ps \<noteq> []"
proof -
  have "map_of (extractPrimes rd) k = Some ps"
    using assms distinct_extractPrimes by simp
  then show ?thesis
    by (simp add: map_of_extractPrimes Let_def split: if_splits)
qed

lemma set_entriesOf:
  "set (entriesOf rd) = {\<lparr>item = item x, rarity = rarity x, source = r\<rparr> | r rs x. (r, rs) \<in> set rd \<and> x \<in> set rs}"
  by (auto simp: entriesOf_def)

text \<open>A small dataset for the examples.\<close>

definition exampleRelics :: relic_data where
  "exampleRelics =
     [(''Lith V1 Relic'',
        [\<lparr>item = ''Volt Prime Systems'', rarity = ''Rare''\<rparr>,
         \<lparr>item = ''Forma Blueprint'', rarity = ''Common''\<rparr>]),
      (''Meso B2 Relic'',
        [\<lparr>item = ''Volt Prime Chassis'', rarity = ''Common''\<rparr>,
         \<lparr>item = ''Braton Prime Stock'', rarity = ''''\<rparr>])]"

text \<open>
  The specification's wording of the key: the name truncated at the marker substring
  (\<open>truncateAt marker s\<close> is the text of \<open>s\<close> before the first occurrence of the marker),
  with the marker appended again.
\<close>

fun truncateAt :: "string \<Rightarrow> string \<Rightarrow> string" where
  "truncateAt marker [] = []"
| "truncateAt marker (c # cs) = (if prefix marker (c # cs) then [] else c # truncateAt marker cs)"

lemma primeNameOf_first:
  "\<not> sublist '' Prime'' (a @ '' Prim'') \<Longrightarrow> primeNameOf (a @ '' Prime'' @ b) = a @ '' Prime''"
  using split_first_occurrence [of "'' Prime''" a b]
  by (simp add: primeNameOf_def first_str_def)

lemma primeNameOf_none:
  "\<not> sublist '' Prime'' s \<Longrightarrow> primeNameOf s = s @ '' Prime''"
  using split_no_occurrence [of "'' Prime''" s]
  by (simp add: primeNameOf_def first_str_def)

lemma extractPrimes_member:
  "(\<exists>k ps. (k, ps) \<in> set (extractPrimes rd) \<and> e \<in> set ps) = (e \<in> set (primeEntries rd))"
proof
  assume "\<exists>k ps. (k, ps) \<in> set (extractPrimes rd) \<and> e \<in> set ps"
  then obtain k ps where kp: "(k, ps) \<in> set (extractPrimes rd)" and e: "e \<in> set ps"
    by blast
  from extractPrimes_entry [OF kp]
  have "ps = filter (\<lambda>e. primeNameOf (item e) = k) (primeEntries rd)"
    by (rule conjunct1)
  with e show "e \<in> set (primeEntries rd)"
    by simp
next
  assume e: "e \<in> set (primeEntries rd)"
  define k where "k = primeNameOf (item e)"
  define ps where "ps = filter (\<lambda>e. primeNameOf (item e) = k) (primeEntries rd)"
  have m: "e \<in> set ps"
    using e by (simp add: ps_def k_def)
  then have "ps \<noteq> []"
    by (cases ps) simp_all
  then have "map_of (extractPrimes rd) k = Some ps"
    by (simp add: map_of_extractPrimes Let_def ps_def)
  then have "(k, ps) \<in> set (extractPrimes rd)"
    by (rule map_of_SomeD)
  with m show "\<exists>k ps. (k, ps) \<in> set (extractPrimes rd) \<and> e \<in> set ps"
    by blast
qed

lemma primeEntries_member:
  assumes "(r, rs) \<in> set rd" and "x \<in> set rs"
  shows "(\<lparr>item = item x, rarity = rarity x, source = r\<rparr> \<in> set (primeEntries rd))
           = isPrimePart (item x)"
proof -
  have "\<lparr>item = item x, rarity = rarity x, source = r\<rparr> \<in> set (entriesOf rd)"
    using assms unfolding set_entriesOf by blast
  then show ?thesis
    by (simp add: primeEntries_def)
qed

lemma extractPrimes_key:
  assumes "(k, ps) \<in> set (extractPrimes rd)" and "e \<in> set ps"
  shows "k = primeNameOf (item e)"
proof -
  from extractPrimes_entry [OF assms(1)]
  have "ps = filter (\<lambda>e. primeNameOf (item e) = k) (primeEntries rd)"
    by (rule conjunct1)
  with assms(2) show ?thesis
    by simp
qed

text \<open>
  Claim C5, as amended. For every relic dataset and every reward row of it,
  \<open>extractPrimes\<close> puts the row (with its relic as source) into some group if and only
  if the item name contains \<open>Prime\<close> and does not contain \<open>Forma\<close>. The key of that
  group is \<open>primeNameOf\<close> of the item name: the text before the first occurrence of
  \<open>' Prime'\<close> (the marker with its leading space) followed by \<open>' Prime'\<close>; a name in
  which \<open>' Prime'\<close> does not occur is keyed by the whole name followed by \<open>' Prime'\<close>.
\<close>

theorem extractPrimes_grouping:
  assumes "(r, rs) \<in> set rd" and "x \<in> set rs"
  defines "e \<equiv> \<lparr>item = item x, rarity = rarity x, source = r\<rparr>"
  shows "((\<exists>k ps. (k, ps) \<in> set (extractPrimes rd) \<and> e \<in> set ps)
            = (includes_str (item x) ''Prime'' \<and> \<not> includes_str (item x) ''Forma''))
       \<and> (\<forall>k ps. (k, ps) \<in> set (extractPrimes rd) \<and> e \<in> set ps \<longrightarrow> k = primeNameOf (item x))
       \<and> (\<forall>a b. item x = a @ '' Prime'' @ b \<and> \<not> sublist '' Prime'' (a @ '' Prim'')
             \<longrightarrow> primeNameOf (item x) = a @ '' Prime'')
       \<and> (\<not> sublist '' Prime'' (item x) \<longrightarrow> primeNameOf (item x) = item x @ '' Prime'')"
proof -
  have "(\<exists>k ps. (k, ps) \<in> set (extractPrimes rd) \<and> e \<in> set ps) = (e \<in> set (primeEntries rd))"
    by (rule extractPrimes_member)
  also have "\<dots> = isPrimePart (item x)"
    unfolding e_def by (rule primeEntries_member [OF assms(1,2)])
  also have "\<dots> = (includes_str (item x) ''Prime'' \<and> \<not> includes_str (item x) ''Forma'')"
    unfolding isPrimePart_def by (rule conj_commute)
  finally have 1: "(\<exists>k ps. (k, ps) \<in> set (extractPrimes rd) \<and> e \<in> set ps)
            = (includes_str (item x) ''Prime'' \<and> \<not> includes_str (item x) ''Forma'')" .
  have ie: "item e = item x"
    by (simp add: e_def)
  have 2: "\<forall>k ps. (k, ps) \<in> set (extractPrimes rd) \<and> e \<in> set ps \<longrightarrow> k = primeNameOf (item x)"
  proof (intro allI impI)
    fix k ps
    assume a: "(k, ps) \<in> set (extractPrimes rd) \<and> e \<in> set ps"
    have "k = primeNameOf (item e)"
      by (rule extractPrimes_key [OF conjunct1 [OF a] conjunct2 [OF a]])
    then show "k = primeNameOf (item x)"
      by (simp only: ie)
  qed
  have 3: "\<forall>a b. item x = a @ '' Prime'' @ b \<and> \<not> sublist '' Prime'' (a @ '' Prim'')
             \<longrightarrow> primeNameOf (item x) = a @ '' Prime''"
  proof (intro allI impI)
    fix a b
    assume h: "item x = a @ '' Prime'' @ b \<and> \<not> sublist '' Prime'' (a @ '' Prim'')"
    have "primeNameOf (a @ '' Prime'' @ b) = a @ '' Prime''"
      by (rule primeNameOf_first [OF conjunct2 [OF h]])
    then show "primeNameOf (item x) = a @ '' Prime''"
      by (simp only: conjunct1 [OF h])
  qed
  have 4: "\<not> sublist '' Prime'' (item x) \<longrightarrow> primeNameOf (item x) = item x @ '' Prime''"
    by (rule impI) (rule primeNameOf_none)
  show ?thesis
    by (rule conjI [OF 1 conjI [OF 2 conjI [OF 3 4]]])
qed

theorem extractPrimes_grouping_witness:
  "(''Lith V1 Relic'', [\<lparr>item = ''Volt Prime Systems'', rarity = ''Rare''\<rparr>,
         \<lparr>item = ''Forma Blueprint'', rarity = ''Common''\<rparr>]) \<in> set exampleRelics
   \<and> \<lparr>item = ''Volt Prime Systems'', rarity = ''Rare''\<rparr> \<in>
        set [\<lparr>item = ''Volt Prime Systems'', rarity = ''Rare''\<rparr>,
         \<lparr>item = ''Forma Blueprint'', rarity = ''Common''\<rparr>]
   \<and> (\<exists>k ps. (k, ps) \<in> set (extractPrimes exampleRelics)
         \<and> \<lparr>item = ''Volt Prime Systems'', rarity = ''Rare'', source = ''Lith V1 Relic''\<rparr> \<in> set ps)
   \<and> primeNameOf ''Volt Prime Systems'' = ''Volt'' @ '' Prime''"
proof -
  let ?rs = "[\<lparr>item = ''Volt Prime Systems'', rarity = ''Rare''\<rparr>,
         \<lparr>item = ''Forma Blueprint'', rarity = ''Common''\<rparr>]"
  let ?x = "\<lparr>item = ''Volt Prime Systems'', rarity = ''Rare''\<rparr>"
  have h1: "(''Lith V1 Relic'', ?rs) \<in> set exampleRelics"
    by (simp add: exampleRelics_def)
  have h2: "?x \<in> set ?rs"
    by simp
  have i: "includes_str (item ?x) ''Prime'' \<and> \<not> includes_str (item ?x) ''Forma''"
    by (simp add: includes_str_def sublist_code)
  have s: "item ?x = ''Volt'' @ '' Prime'' @ '' Systems'' \<and> \<not> sublist '' Prime'' (''Volt'' @ '' Prim'')"
    by (simp add: sublist_code)
  note t = extractPrimes_grouping [OF h1 h2]
  from t i have "\<exists>k ps. (k, ps) \<in> set (extractPrimes exampleRelics)
         \<and> \<lparr>item = item ?x, rarity = rarity ?x, source = ''Lith V1 Relic''\<rparr> \<in> set ps"
    by (simp only: simp_thms)
  moreover from t have "\<forall>a b. item ?x = a @ '' Prime'' @ b \<and> \<not> sublist '' Prime'' (a @ '' Prim'')
             \<longrightarrow> primeNameOf (item ?x) = a @ '' Prime''"
    by (elim conjE)
  then have "item ?x = ''Volt'' @ '' Prime'' @ '' Systems'' \<and> \<not> sublist '' Prime'' (''Volt'' @ '' Prim'')
             \<longrightarrow> primeNameOf (item ?x) = ''Volt'' @ '' Prime''"
    by (elim allE)
  with s have "primeNameOf (item ?x) = ''Volt'' @ '' Prime''"
    by (elim impE)
  ultimately show ?thesis
    using h1 h2 by simp
qed

text \<open>
  The claim as stated truncates at the marker \<open>Prime\<close>. The code splits at \<open>' Prime'\<close>:
  the row \<open>Primed Chamber\<close> is grouped under \<open>Primed Chamber Prime\<close>, not under \<open>Prime\<close>.
\<close>

theorem extractPrimes_key_counterexample:
  "isPrimePart ''Primed Chamber''
   \<and> extractPrimes [(''Lith P1 Relic'', [\<lparr>item = ''Primed Chamber'', rarity = ''Rare''\<rparr>])]
       = [(''Primed Chamber Prime'',
            [\<lparr>item = ''Primed Chamber'', rarity = ''Rare'', source = ''Lith P1 Relic''\<rparr>])]
   \<and> truncateAt ''Prime'' ''Primed Chamber'' @ ''Prime'' = ''Prime''"
  by (simp add: extractPrimes_def addReward_def isPrimePart_def includes_str_def sublist_code
      primeNameOf_def first_str_def)

text \<open>
  Claim C9. For every relic dataset, every part recorded in a group of
  \<open>extractPrimes\<close> has a source that is a key of the dataset.
\<close>

theorem extractPrimes_sources:
  assumes "(k, ps) \<in> set (extractPrimes rd)" "p \<in> set ps"
  shows "source p \<in> fst ` set rd"
proof -
  from assms have "p \<in> set (entriesOf rd)"
    by (auto dest!: extractPrimes_entry simp: primeEntries_def)
  then show ?thesis
    by (force simp: set_entriesOf)
qed

lemma extractPrimes_exampleRelics:
  "extractPrimes exampleRelics =
     [(''Volt Prime'',
        [\<lparr>item = ''Volt Prime Systems'', rarity = ''Rare'', source = ''Lith V1 Relic''\<rparr>,
         \<lparr>item = ''Volt Prime Chassis'', rarity = ''Common'', source = ''Meso B2 Relic''\<rparr>]),
      (''Braton Prime'',
        [\<lparr>item = ''Braton Prime Stock'', rarity = '''', source = ''Meso B2 Relic''\<rparr>])]"
  by (simp add: exampleRelics_def extractPrimes_def addReward_def isPrimePart_def
      includes_str_def sublist_code primeNameOf_def first_str_def)

theorem extractPrimes_sources_witness:
  "(''Braton Prime'',
        [\<lparr>item = ''Braton Prime Stock'', rarity = '''', source = ''Meso B2 Relic''\<rparr>])
      \<in> set (extractPrimes exampleRelics)
   \<and> \<lparr>item = ''Braton Prime Stock'', rarity = '''', source = ''Meso B2 Relic''\<rparr>
      \<in> set [\<lparr>item = ''Braton Prime Stock'', rarity = '''', source = ''Meso B2 Relic''\<rparr>]
   \<and> ''Meso B2 Relic'' \<in> fst ` set exampleRelics"
proof -
  let ?p = "\<lparr>item = ''Braton Prime Stock'', rarity = '''', source = ''Meso B2 Relic''\<rparr>"
  have h1: "(''Braton Prime'', [?p]) \<in> set (extractPrimes exampleRelics)"
    by (simp add: extractPrimes_exampleRelics)
  have h2: "?p \<in> set [?p]"
    by simp
  from extractPrimes_sources [OF h1 h2] h1 h2 show ?thesis
    by simp
qed

section \<open>separateWarframesWeapons\<close>

text \<open>A prime of which the current relics hold only the chassis.\<close>

definition chassisOnly :: "(string \<times> prime_info) list" where
  "chassisOnly =
     [(''Volt Prime'',
       \<lparr>name = ''Volt Prime'',
          parts = [\<lparr>part = ''Volt Prime Chassis'', rarity_p = ''Common'',
                    relic = Some ''Meso B2 Relic''\<rparr>]\<rparr>)]"

lemma isWarframe_p0_Chassis:
  assumes "p \<in> set (parts info)" "includes_str (part p) ''Chassis''"
  shows "isWarframe_p0 info"
  using assms unfolding isWarframe_p0_def list_ex_iff by blast

text \<open>
  Both copies put every prime (whose name is not \<open>__proto__\<close>) into exactly one of the
  two buckets, according to their test.
\<close>

lemma warframes_separateStep:
  "map_of (warframes (separateStep f (n, i) s)) k =
     (if f i \<and> n \<noteq> ''__proto__'' \<and> k = n then Some i else map_of (warframes s) k)"
  by (simp add: separateStep_def setProperty_def update_conv')

lemma weapons_separateStep:
  "map_of (weapons (separateStep f (n, i) s)) k =
     (if \<not> f i \<and> n \<noteq> ''__proto__'' \<and> k = n then Some i else map_of (weapons s) k)"
  by (simp add: separateStep_def setProperty_def update_conv')

lemma fold_separateStep_warframes:
  assumes "distinct (map fst es)"
  shows "map_of (warframes (fold (separateStep f) es s)) k =
     (case map_of es k of
        None \<Rightarrow> map_of (warframes s) k
      | Some i \<Rightarrow> if f i \<and> k \<noteq> ''__proto__'' then Some i else map_of (warframes s) k)"
  using assms
proof (induction es arbitrary: s)
  case Nil
  show ?case by simp
next
  case (Cons e es)
  obtain n i where e: "e = (n, i)" by (cases e)
  from Cons.prems have d: "distinct (map fst es)" and n: "map_of es n = None"
    by (auto simp: e map_of_eq_None_iff)
  have "map_of (warframes (fold (separateStep f) (e # es) s)) k
      = map_of (warframes (fold (separateStep f) es (separateStep f (n, i) s))) k"
    by (simp add: e)
  also have "\<dots> = (case map_of es k of
        None \<Rightarrow> map_of (warframes (separateStep f (n, i) s)) k
      | Some j \<Rightarrow> if f j \<and> k \<noteq> ''__proto__'' then Some j
                  else map_of (warframes (separateStep f (n, i) s)) k)"
    by (rule Cons.IH [OF d])
  also have "\<dots> = (case map_of (e # es) k of
        None \<Rightarrow> map_of (warframes s) k
      | Some i \<Rightarrow> if f i \<and> k \<noteq> ''__proto__'' then Some i else map_of (warframes s) k)"
    using n by (auto simp: e warframes_separateStep split: option.splits)
  finally show ?case .
qed

lemma fold_separateStep_weapons:
  assumes "distinct (map fst es)"
  shows "map_of (weapons (fold (separateStep f) es s)) k =
     (case map_of es k of
        None \<Rightarrow> map_of (weapons s) k
      | Some i \<Rightarrow> if \<not> f i \<and> k \<noteq> ''__proto__'' then Some i else map_of (weapons s) k)"
  using assms
proof (induction es arbitrary: s)
  case Nil
  show ?case by simp
next
  case (Cons e es)
  obtain n i where e: "e = (n, i)" by (cases e)
  from Cons.prems have d: "distinct (map fst es)" and n: "map_of es n = None"
    by (auto simp: e map_of_eq_None_iff)
  have "map_of (weapons (fold (separateStep f) (e # es) s)) k
      = map_of (weapons (fold (separateStep f) es (separateStep f (n, i) s))) k"
    by (simp add: e)
  also have "\<dots> = (case map_of es k of
        None \<Rightarrow> map_of (weapons (separateStep f (n, i) s)) k
      | Some j \<Rightarrow> if \<not> f j \<and> k \<noteq> ''__proto__'' then Some j
                  else map_of (weapons (separateStep f (n, i) s)) k)"
    by (rule Cons.IH [OF d])
  also have "\<dots> = (case map_of (e # es) k of
        None \<Rightarrow> map_of (weapons s) k
      | Some i \<Rightarrow> if \<not> f i \<and> k \<noteq> ''__proto__'' then Some i else map_of (weapons s) k)"
    using n by (auto simp: e weapons_separateStep split: option.splits)
  finally show ?case .
qed

lemma separate_buckets:
  assumes d: "distinct (map fst es)" and m: "(n, i) \<in> set es" and p: "n \<noteq> ''__proto__''"
  shows "map_of (warframes (fold (separateStep f) es \<lparr>warframes = [], weapons = []\<rparr>)) n
           = (if f i then Some i else None)
       \<and> map_of (weapons (fold (separateStep f) es \<lparr>warframes = [], weapons = []\<rparr>)) n
           = (if f i then None else Some i)"
proof -
  have "map_of es n = Some i"
    using d m by simp
  then show ?thesis
    using p by (simp add: fold_separateStep_warframes [OF d] fold_separateStep_weapons [OF d])
qed

lemma separateWarframesWeapons_p0_classifies:
  assumes "distinct (map fst es)" "(n, i) \<in> set es" "n \<noteq> ''__proto__''"
  shows "map_of (warframes (separateWarframesWeapons_p0 es)) n = (if isWarframe_p0 i then Some i else None)
       \<and> map_of (weapons (separateWarframesWeapons_p0 es)) n = (if isWarframe_p0 i then None else Some i)"
  unfolding separateWarframesWeapons_p0_def by (rule separate_buckets [OF assms])

text \<open>
  Claim C3. \<open>separateWarframesWeapons\<close> puts every prime into exactly one bucket, and
  a prime with a part whose name contains \<open>Chassis\<close> is frame-like. The copy in
  part_000 does so (the lemmas above); the copy in htmlConverter.js tests \<open>Systems\<close>
  only, and files a prime whose only part is a chassis under the weapons.
\<close>

theorem separateWarframesWeapons_hc_misses_Chassis:
  "separateWarframesWeapons_hc chassisOnly = \<lparr>warframes = [], weapons = chassisOnly\<rparr>
   \<and> separateWarframesWeapons_p0 chassisOnly = \<lparr>warframes = chassisOnly, weapons = []\<rparr>"
  by (simp add: separateWarframesWeapons_hc_def separateWarframesWeapons_p0_def chassisOnly_def
      separateStep_def setProperty_def isWarframe_hc_def isWarframe_p0_def includes_str_def
      sublist_code)



section \<open>The order of the Primes section\<close>

text \<open>A prime with a part of unknown rarity (the empty string).\<close>

definition unknownRarityPrimes :: primes_data where
  "unknownRarityPrimes =
     [(''Braton Prime'',
       [\<lparr>item = ''Braton Prime Barrel'', rarity = ''Rare'', source = ''Lith V1 Relic''\<rparr>,
        \<lparr>item = ''Braton Prime Stock'', rarity = '''', source = ''Meso B2 Relic''\<rparr>])]"

lemma rarityKey_values:
  "rarityKey p =
     (if rarity p = ''Rare'' then 0 else if rarity p = ''Uncommon'' then 1
      else if rarity p = ''Common'' then 2 else - 1)"
  by (simp add: rarityKey_def rarityOrder_def)

lemma sortedItems_sorted:
  "sorted (map rarityKey (sortedItems ps)) \<and> mset (sortedItems ps) = mset ps"
  by (simp add: sortedItems_def)

lemma primesSection_names_sorted:
  "primesSection ps = concat (map (primeBlock ps) (sort (map fst ps))) \<and> sorted (sort (map fst ps))"
  by (simp add: primesSection_def)

text \<open>
  Claim C2. In the Primes section the items are sorted by name and the parts of an
  item by rarity: Rare, Uncommon, Common, then the parts of unknown rarity. The names
  are sorted and the parts are sorted by \<open>rarityKey\<close> (the lemmas above), but
  \<open>indexOf\<close> gives \<open>-1\<close> for the empty rarity, so such a part is written first, before
  the Rare ones.
\<close>

theorem primesSection_unknown_rarity_first:
  "primesSection unknownRarityPrimes =
     ''- Braton Prime'' @ [NL] @
     ''  - Braton Prime Stock () -> Meso B2 Relic'' @ [NL] @
     ''  - Braton Prime Barrel (Rare) -> Lith V1 Relic'' @ [NL]"
  by (simp add: primesSection_def unknownRarityPrimes_def primeBlock_def sortedItems_def
      rarityKey_def rarityOrder_def partLine_def)

section \<open>Escaping in renderPrimeItem\<close>

text \<open>
  A prime whose name and whose rarity text contain markup characters, and a markdown
  file that \<open>parse\<close> turns into it.
\<close>

definition markupItem :: prime_info where
  \<open>markupItem =
     \<lparr>name = ''<b>Volt Prime'',
        parts = [\<lparr>part = ''Volt Prime Systems'', rarity_p = ''Rare" onclick="x'',
                  relic = Some ''Lith V1 Relic''\<rparr>]\<rparr>\<close>

definition markupMarkdown :: string where
  \<open>markupMarkdown =
     ''# Primes'' @ [NL] @ ''- <b>Volt Prime'' @ [NL] @
     ''  - Volt Prime Systems (Rare" onclick="x) -> Lith V1 Relic'' @ [NL]\<close>

lemma parse_markupMarkdown:
  "parse_hc markupMarkdown = Inr \<lparr>primes_of = [(''<b>Volt Prime'', markupItem)], relics_of = []\<rparr>
   \<and> parse_p0 markupMarkdown = Inr \<lparr>primes_of = [(''<b>Volt Prime'', markupItem)], relics_of = []\<rparr>"
  by code_simp

text \<open>
  \<open>escapeHtml\<close> replaces each of the five characters by its entity; its result has
  no angle bracket and no quote.
\<close>

definition escapeChar :: "char \<Rightarrow> string" where
  "escapeChar c =
     (if c = CHR ''&'' then ''&amp;'' else if c = CHR ''<'' then ''&lt;''
      else if c = CHR ''>'' then ''&gt;'' else if c = CHR 0x22 then ''&quot;''
      else if c = CHR 0x27 then ''&#039;'' else [c])"

lemma replaceAll_concat:
  "replaceAll c r (concat (map f s)) = concat (map (\<lambda>x. replaceAll c r (f x)) s)"
  by (induction s) (simp_all add: replaceAll_def)

lemma escapeHtml_chars: "escapeHtml s = concat (map escapeChar s)"
proof -
  have "replaceAll (CHR ''&'') ''&amp;'' s = concat (map (\<lambda>x. if x = CHR ''&'' then ''&amp;'' else [x]) s)"
    by (simp add: replaceAll_def)
  then show ?thesis
    unfolding escapeHtml_def
    by (simp add: replaceAll_concat) (rule arg_cong [where f = concat], rule map_cong, rule refl,
      simp add: replaceAll_def escapeChar_def)
qed

definition markupChar :: "char \<Rightarrow> bool" where
  "markupChar c = (c = CHR ''<'' \<or> c = CHR ''>'' \<or> c = CHR 0x22 \<or> c = CHR 0x27)"

lemma escapeHtml_no_markup: "list_all (\<lambda>c. \<not> markupChar c) (escapeHtml s)"
  unfolding escapeHtml_chars
  by (induction s) (simp_all add: escapeChar_def markupChar_def)

text \<open>
  In part_000 every inserted text of \<open>renderPrimeItem\<close> is escaped, except the rarity
  that goes into the \<open>class\<close> attribute.
\<close>

lemma set_update_subset: "x \<in> set (AList.update k v al) \<Longrightarrow> x = (k, v) \<or> x \<in> set al"
  by (induction al) (auto split: if_splits)

lemma pushRelic_rarity:
  assumes "(k, gp, gr, rs) \<in> set (pushRelic key p r new grouped)"
  shows "gr = r \<or> (\<exists>k' gp' rs'. (k', gp', gr, rs') \<in> set grouped)"
proof (cases "map_of grouped key")
  case None
  with assms have "(k, gp, gr, rs) \<in> set (AList.update key (p, r, new) grouped)"
    by (simp add: pushRelic_def update_conv')
  then show ?thesis
    by (auto dest: set_update_subset)
next
  case (Some g)
  obtain gp0 gr0 rs0 where g: "g = (gp0, gr0, rs0)" by (cases g)
  from Some have m: "(key, gp0, gr0, rs0) \<in> set grouped"
    unfolding g by (rule map_of_SomeD)
  from assms Some have "(k, gp, gr, rs) \<in> set (AList.update key (gp0, gr0, rs0 @ new) grouped)"
    by (simp add: pushRelic_def g)
  then have "(k, gp, gr, rs) = (key, gp0, gr0, rs0 @ new) \<or> (k, gp, gr, rs) \<in> set grouped"
    by (rule set_update_subset)
  with m show ?thesis by auto
qed

lemma fold_groups_rarity_p0:
  assumes "(k, gp, gr, rs) \<in> set (fold (\<lambda>p grouped.
                if part p = [] then grouped
                else pushRelic (groupKey (part p) (rarity_p p)) (part p) (rarity_p p)
                       (if truthy (relic p) then [relic p] else []) grouped) ps acc)"
  shows "gr \<in> rarity_p ` set ps \<or> (\<exists>k' gp' rs'. (k', gp', gr, rs') \<in> set acc)"
  using assms
proof (induction ps arbitrary: acc)
  case Nil
  then show ?case by auto
next
  case (Cons p ps)
  let ?acc = "if part p = [] then acc
      else pushRelic (groupKey (part p) (rarity_p p)) (part p) (rarity_p p)
             (if truthy (relic p) then [relic p] else []) acc"
  from Cons.prems have "gr \<in> rarity_p ` set ps \<or> (\<exists>k' gp' rs'. (k', gp', gr, rs') \<in> set ?acc)"
    by (intro Cons.IH) simp
  then show ?case
  proof
    assume "gr \<in> rarity_p ` set ps"
    then show ?thesis by auto
  next
    assume "\<exists>k' gp' rs'. (k', gp', gr, rs') \<in> set ?acc"
    then obtain k' gp' rs' where m: "(k', gp', gr, rs') \<in> set ?acc" by blast
    show ?thesis
    proof (cases "part p = []")
      case True
      with m show ?thesis by auto
    next
      case False
      with m have "gr = rarity_p p \<or> (\<exists>k' gp' rs'. (k', gp', gr, rs') \<in> set acc)"
        by (auto dest: pushRelic_rarity)
      then show ?thesis by auto
    qed
  qed
qed

lemma groupParts_p0_rarity:
  assumes "(gp, gr, rs) \<in> set (groupParts_p0 sr ps)"
  shows "gr \<in> rarity_p ` set ps"
proof -
  from assms obtain k rs0 where "(k, gp, gr, rs0) \<in> set (fold (\<lambda>p grouped.
                if part p = [] then grouped
                else pushRelic (groupKey (part p) (rarity_p p)) (part p) (rarity_p p)
                       (if truthy (relic p) then [relic p] else []) grouped) ps [])"
    unfolding groupParts_p0_def by auto
  from fold_groups_rarity_p0 [OF this] show ?thesis by simp
qed

lemma set_joinFragments: "set (joinFragments sep xs) \<subseteq> set sep \<union> \<Union> (set ` set xs)"
  by (induction sep xs rule: joinFragments.induct) auto

lemma renderPart_p0_inserts:
  assumes "Ins t \<in> set (renderPart_p0 (gp, gr, rs))"
  shows "t = gr \<or> list_all (\<lambda>c. \<not> markupChar c) t"
proof -
  have j: "list_all (\<lambda>c. \<not> markupChar c) t"
    if "Ins t \<in> set (joinFragments [Lit '' > ''] (map renderRelicSpan_p0 rs))"
  proof -
    from that set_joinFragments [of "[Lit '' > '']" "map renderRelicSpan_p0 rs"]
    obtain r where "Ins t \<in> set (renderRelicSpan_p0 r)"
      by auto
    then have "t = escapeHtml (shown r)"
      by (auto simp: renderRelicSpan_p0_def)
    then show ?thesis
      by (simp add: escapeHtml_no_markup)
  qed
  from assms have "t = gr \<or> t = escapeHtml gp
      \<or> Ins t \<in> set (joinFragments [Lit '' > ''] (map renderRelicSpan_p0 rs))"
    by (auto simp: renderPart_p0_def)
  with j show ?thesis
    by (auto simp: escapeHtml_no_markup)
qed

lemma renderPrimeItem_p0_inserts:
  assumes "Ins t \<in> set (renderPrimeItem_p0 sr ex nm info)"
  shows "list_all (\<lambda>c. \<not> markupChar c) t \<or> t \<in> rarity_p ` set (parts info)"
proof -
  from assms have "t = escapeHtml nm
      \<or> (\<exists>g \<in> set (groupParts_p0 sr (parts info)). Ins t \<in> set (renderPart_p0 g))"
    by (auto simp: renderPrimeItem_p0_def Let_def)
  then show ?thesis
  proof
    assume "t = escapeHtml nm"
    then show ?thesis by (simp add: escapeHtml_no_markup)
  next
    assume "\<exists>g \<in> set (groupParts_p0 sr (parts info)). Ins t \<in> set (renderPart_p0 g)"
    then obtain gp gr rs where g: "(gp, gr, rs) \<in> set (groupParts_p0 sr (parts info))"
      and t: "Ins t \<in> set (renderPart_p0 (gp, gr, rs))"
      by auto
    from renderPart_p0_inserts [OF t] groupParts_p0_rarity [OF g] show ?thesis
      by auto
  qed
qed

text \<open>
  Claim C4. Every text of the dataset is escaped before it is inserted into the
  markup. In htmlConverter.js \<open>renderPrimeItem\<close> inserts the name as it is (that copy
  has no \<open>escapeHtml\<close>), and in part_000 it inserts the rarity as it is, whatever
  \<open>sortRelics\<close> and the expanded items are.
\<close>

theorem renderPrimeItem_unescaped:
  \<open>Ins ''<b>Volt Prime''
      \<in> set (renderPrimeItem_hc sortRelics expandedItems ''<b>Volt Prime'' markupItem)
   \<and> Ins ''Rare" onclick="x''
      \<in> set (renderPrimeItem_p0 sortRelics expandedItems ''<b>Volt Prime'' markupItem)\<close>
  by (simp add: renderPrimeItem_hc_def renderPrimeItem_p0_def markupItem_def Let_def
      groupParts_hc_def groupParts_p0_def pushRelic_def groupKey_def renderPart_p0_def
      renderPart_hc_def truthy_def uniq_def)

section \<open>The parser never fails; what a run depends on\<close>

text \<open>
  The invariant of the parser: the keys of each map are distinct, and the open item of
  a section is a key of the map of that section.
\<close>

definition openItemPresent :: "parser \<Rightarrow> bool" where
  "openItemPresent st =
     (distinct (map fst (primes st)) \<and> distinct (map fst (relics st))
      \<and> (case currentItem st of
            None \<Rightarrow> True
          | Some c \<Rightarrow>
              (if currentSection st = Some Primes then map_of (primes st) c \<noteq> None
               else if currentSection st = Some Relics then map_of (relics st) c \<noteq> None
               else True)))"

text \<open>Two parsers that are in the same place and agree on the entries of some keys.\<close>

definition agree :: "string set \<Rightarrow> string set \<Rightarrow> parser \<Rightarrow> parser \<Rightarrow> bool" where
  "agree P R s t =
     (currentSection s = currentSection t \<and> currentItem s = currentItem t
      \<and> openItemPresent s \<and> openItemPresent t
      \<and> (\<forall>k \<in> P. map_of (primes s) k = map_of (primes t) k)
      \<and> (\<forall>k \<in> R. map_of (relics s) k = map_of (relics t) k))"

lemma split_Location:
  assumes "startsWith line ''**Location**:''"
  shows "\<exists>l ls. split '':'' line = ''**Location**'' # l # ls"
proof -
  from assms obtain rest where line: "line = ''**Location**'' @ CHR '':'' # rest"
    by (auto simp: startsWith_def prefix_def)
  have "split '':'' line = ''**Location**'' # split '':'' rest"
    unfolding line by (rule split_char_first) simp
  moreover obtain l ls where "split '':'' rest = l # ls"
    using split_not_Nil [of "'':''" rest] by (cases "split '':'' rest") auto
  ultimately show ?thesis by simp
qed

lemma handleSectionHeaders_cases:
  "handleSectionHeaders line st =
     (case sections line of
        Some sec \<Rightarrow> (True, st\<lparr>currentSection := Some sec, currentItem := None\<rparr>)
      | None \<Rightarrow> (False, st))"
  by (simp add: handleSectionHeaders_def)

lemma getCurrent_Some:
  "map_of m c = Some v \<Longrightarrow> getCurrent m (Some c) = Some (c, v)"
  by (simp add: getCurrent_def)

lemma truthy_Some: "truthy (Some c) = (c \<noteq> [])"
  by (simp add: truthy_def)

lemma truthy_None: "truthy None = False"
  by (simp add: truthy_def)

lemma openItemPresent_primes:
  assumes "openItemPresent s" "currentSection s = Some Primes" "currentItem s = Some c"
  shows "\<exists>v. map_of (primes s) c = Some v"
  using assms by (auto simp: openItemPresent_def simp del: map_of_eq_Some_iff)

lemma openItemPresent_relics:
  assumes "openItemPresent s" "currentSection s = Some Relics" "currentItem s = Some c"
  shows "\<exists>v. map_of (relics s) c = Some v"
  using assms by (auto simp: openItemPresent_def simp del: map_of_eq_Some_iff)

lemma agreeI:
  assumes "currentSection s = currentSection t" "currentItem s = currentItem t"
    "openItemPresent s" "openItemPresent t"
    "\<And>k. k \<in> P \<Longrightarrow> map_of (primes s) k = map_of (primes t) k"
    "\<And>k. k \<in> R \<Longrightarrow> map_of (relics s) k = map_of (relics t) k"
  shows "agree P R s t"
  using assms by (simp add: agree_def)

lemma agreeD:
  assumes "agree P R s t"
  shows "currentSection t = currentSection s" "currentItem t = currentItem s"
    "openItemPresent s" "openItemPresent t"
    "\<And>k. k \<in> P \<Longrightarrow> map_of (primes s) k = map_of (primes t) k"
    "\<And>k. k \<in> R \<Longrightarrow> map_of (relics s) k = map_of (relics t) k"
  using assms by (simp_all add: agree_def)

lemma openItemPresent_header:
  "openItemPresent s \<Longrightarrow> openItemPresent (s\<lparr>currentSection := sec, currentItem := None\<rparr>)"
  by (simp add: openItemPresent_def)

lemma openItemPresent_declare_prime:
  "openItemPresent s \<Longrightarrow> currentSection s = Some Primes \<Longrightarrow>
   openItemPresent (s\<lparr>primes := AList.update c v (primes s), currentItem := Some c\<rparr>)"
  by (simp add: openItemPresent_def update_conv' distinct_update)

lemma openItemPresent_declare_relic:
  "openItemPresent s \<Longrightarrow> currentSection s = Some Relics \<Longrightarrow>
   openItemPresent (s\<lparr>relics := AList.update c v (relics s), currentItem := Some c\<rparr>)"
  by (simp add: openItemPresent_def update_conv' distinct_update)

lemma openItemPresent_update_prime:
  "openItemPresent s \<Longrightarrow> openItemPresent (s\<lparr>primes := AList.update c v (primes s)\<rparr>)"
  by (auto simp: openItemPresent_def update_conv' distinct_update split: option.splits if_splits)

lemma openItemPresent_update_relic:
  "openItemPresent s \<Longrightarrow> openItemPresent (s\<lparr>relics := AList.update c v (relics s)\<rparr>)"
  by (auto simp: openItemPresent_def update_conv' distinct_update split: option.splits if_splits)

lemma agree_header:
  assumes "agree P R s t"
  shows "agree P R (s\<lparr>currentSection := Some sec, currentItem := None\<rparr>)
     (t\<lparr>currentSection := Some sec, currentItem := None\<rparr>)"
  using agreeD(3-6) [OF assms] by (intro agreeI openItemPresent_header) simp_all

lemma agree_declare_prime:
  assumes a: "agree P R s t" and sec: "currentSection s = Some Primes"
  shows "agree P R (s\<lparr>primes := AList.update c v (primes s), currentItem := Some c\<rparr>)
     (t\<lparr>primes := AList.update c v (primes t), currentItem := Some c\<rparr>)"
proof (rule agreeI)
  have sect: "currentSection t = Some Primes"
    using agreeD(1) [OF a] sec by simp
  show "openItemPresent (s\<lparr>primes := AList.update c v (primes s), currentItem := Some c\<rparr>)"
    by (rule openItemPresent_declare_prime [OF agreeD(3) [OF a] sec])
  show "openItemPresent (t\<lparr>primes := AList.update c v (primes t), currentItem := Some c\<rparr>)"
    by (rule openItemPresent_declare_prime [OF agreeD(4) [OF a] sect])
qed (use agreeD [OF a] in \<open>simp_all add: update_conv'\<close>)

lemma agree_declare_relic:
  assumes a: "agree P R s t" and sec: "currentSection s = Some Relics"
  shows "agree P R (s\<lparr>relics := AList.update c v (relics s), currentItem := Some c\<rparr>)
     (t\<lparr>relics := AList.update c v (relics t), currentItem := Some c\<rparr>)"
proof (rule agreeI)
  have sect: "currentSection t = Some Relics"
    using agreeD(1) [OF a] sec by simp
  show "openItemPresent (s\<lparr>relics := AList.update c v (relics s), currentItem := Some c\<rparr>)"
    by (rule openItemPresent_declare_relic [OF agreeD(3) [OF a] sec])
  show "openItemPresent (t\<lparr>relics := AList.update c v (relics t), currentItem := Some c\<rparr>)"
    by (rule openItemPresent_declare_relic [OF agreeD(4) [OF a] sect])
qed (use agreeD [OF a] in \<open>simp_all add: update_conv'\<close>)

lemma agree_update_prime:
  assumes a: "agree P R s t"
    and vs: "map_of (primes s) c = Some vs" and vt: "map_of (primes t) c = Some vt"
  shows "agree P R (s\<lparr>primes := AList.update c (f vs) (primes s)\<rparr>)
     (t\<lparr>primes := AList.update c (f vt) (primes t)\<rparr>)"
proof (rule agreeI)
  show "openItemPresent (s\<lparr>primes := AList.update c (f vs) (primes s)\<rparr>)"
    by (rule openItemPresent_update_prime [OF agreeD(3) [OF a]])
  show "openItemPresent (t\<lparr>primes := AList.update c (f vt) (primes t)\<rparr>)"
    by (rule openItemPresent_update_prime [OF agreeD(4) [OF a]])
  show "map_of (primes (s\<lparr>primes := AList.update c (f vs) (primes s)\<rparr>)) k
      = map_of (primes (t\<lparr>primes := AList.update c (f vt) (primes t)\<rparr>)) k" if "k \<in> P" for k
  proof (cases "k = c")
    case True
    with agreeD(5) [OF a that] vs vt have "vs = vt" by simp
    with True show ?thesis by (simp add: update_conv')
  next
    case False
    with agreeD(5) [OF a that] show ?thesis by (simp add: update_conv')
  qed
qed (use agreeD [OF a] in simp_all)

lemma agree_update_relic:
  assumes a: "agree P R s t"
    and vs: "map_of (relics s) c = Some vs" and vt: "map_of (relics t) c = Some vt"
  shows "agree P R (s\<lparr>relics := AList.update c (f vs) (relics s)\<rparr>)
     (t\<lparr>relics := AList.update c (f vt) (relics t)\<rparr>)"
proof (rule agreeI)
  show "openItemPresent (s\<lparr>relics := AList.update c (f vs) (relics s)\<rparr>)"
    by (rule openItemPresent_update_relic [OF agreeD(3) [OF a]])
  show "openItemPresent (t\<lparr>relics := AList.update c (f vt) (relics t)\<rparr>)"
    by (rule openItemPresent_update_relic [OF agreeD(4) [OF a]])
  show "map_of (relics (s\<lparr>relics := AList.update c (f vs) (relics s)\<rparr>)) k
      = map_of (relics (t\<lparr>relics := AList.update c (f vt) (relics t)\<rparr>)) k" if "k \<in> R" for k
  proof (cases "k = c")
    case True
    with agreeD(6) [OF a that] vs vt have "vs = vt" by simp
    with True show ?thesis by (simp add: update_conv')
  next
    case False
    with agreeD(6) [OF a that] show ?thesis by (simp add: update_conv')
  qed
qed (use agreeD [OF a] in simp_all)

lemma agree_same_place:
  "agree P R s t \<Longrightarrow> currentSection t = currentSection s \<and> currentItem t = currentItem s"
  by (simp add: agree_def)

lemma handleSectionHeaders_agree:
  assumes "agree P R s t"
  shows "\<exists>b s' t'. handleSectionHeaders line s = (b, s') \<and> handleSectionHeaders line t = (b, t')
           \<and> agree P R s' t'"
  using assms by (cases "sections line") (auto simp: handleSectionHeaders_def agree_header)

lemma handlePrimeSection_hc_agree:
  assumes a: "agree P R s t"
  shows "\<exists>b s' t'. handlePrimeSection_hc line s = Inr (b, s') \<and> handlePrimeSection_hc line t = Inr (b, t')
           \<and> agree P R s' t'"
proof -
  note pl = agree_same_place [OF a]
  consider (other) "currentSection s \<noteq> Some Primes"
    | (decl) "currentSection s = Some Primes" "startsWith line ''- '' \<and> \<not> includes_str line ''->''"
    | (part) "currentSection s = Some Primes" "\<not> (startsWith line ''- '' \<and> \<not> includes_str line ''->'')"
        "(startsWith line ''  - '' \<or> (startsWith line ''- '' \<and> includes_str line ''->''))
              \<and> truthy (currentItem s)"
    | (none) "currentSection s = Some Primes" "\<not> (startsWith line ''- '' \<and> \<not> includes_str line ''->'')"
        "\<not> ((startsWith line ''  - '' \<or> (startsWith line ''- '' \<and> includes_str line ''->''))
              \<and> truthy (currentItem s))"
    by blast
  then show ?thesis
  proof cases
    case other
    with a pl show ?thesis by (auto simp: handlePrimeSection_hc_def)
  next
    case decl
    have "agree P R (s\<lparr>primes := AList.update c v (primes s), currentItem := Some c\<rparr>)
     (t\<lparr>primes := AList.update c v (primes t), currentItem := Some c\<rparr>)" for c v
      by (rule agree_declare_prime [OF a decl(1)])
    with pl decl show ?thesis
      by (auto simp: handlePrimeSection_hc_def Let_def)
  next
    case part
    then obtain c where c: "currentItem s = Some c"
      by (cases "currentItem s") (auto simp: truthy_def)
    from a have "openItemPresent s" "openItemPresent t" by (simp_all add: agree_def)
    with c pl part(1) obtain vs vt where vs: "map_of (primes s) c = Some vs"
      and vt: "map_of (primes t) c = Some vt"
      by (metis openItemPresent_primes)
    from agree_update_prime [OF a vs vt]
    have "agree P R (s\<lparr>primes := AList.update c (vs\<lparr>parts := parts vs @ [parsePartInfo_hc line]\<rparr>) (primes s)\<rparr>)
     (t\<lparr>primes := AList.update c (vt\<lparr>parts := parts vt @ [parsePartInfo_hc line]\<rparr>) (primes t)\<rparr>)" .
    with part pl c vs vt show ?thesis
      by (auto simp: handlePrimeSection_hc_def Let_def getCurrent_def)
  next
    case none
    with a pl show ?thesis by (auto simp: handlePrimeSection_hc_def)
  qed
qed

lemma handleRelicSection_hc_agree:
  assumes a: "agree P R s t"
  shows "\<exists>b s' t'. handleRelicSection_hc line s = Inr (b, s') \<and> handleRelicSection_hc line t = Inr (b, t')
           \<and> agree P R s' t'"
proof -
  note pl = agree_same_place [OF a]
  from a have op: "openItemPresent s" "openItemPresent t" by (simp_all add: agree_def)
  consider (other) "currentSection s \<noteq> Some Relics"
    | (decl) "currentSection s = Some Relics" "startsWith line ''## ''"
    | (loc) "currentSection s = Some Relics" "\<not> startsWith line ''## ''"
        "startsWith line ''**Location**:'' \<and> truthy (currentItem s)"
    | (reward) "currentSection s = Some Relics" "\<not> startsWith line ''## ''"
        "\<not> (startsWith line ''**Location**:'' \<and> truthy (currentItem s))"
        "startsWith line ''- '' \<and> truthy (currentItem s)"
    | (none) "currentSection s = Some Relics" "\<not> startsWith line ''## ''"
        "\<not> (startsWith line ''**Location**:'' \<and> truthy (currentItem s))"
        "\<not> (startsWith line ''- '' \<and> truthy (currentItem s))"
    by blast
  then show ?thesis
  proof cases
    case other
    with a pl show ?thesis by (auto simp: handleRelicSection_hc_def)
  next
    case decl
    have "agree P R (s\<lparr>relics := AList.update c v (relics s), currentItem := Some c\<rparr>)
     (t\<lparr>relics := AList.update c v (relics t), currentItem := Some c\<rparr>)" for c v
      by (rule agree_declare_relic [OF a decl(1)])
    with pl decl show ?thesis
      by (auto simp: handleRelicSection_hc_def Let_def)
  next
    case loc
    then obtain c where c: "currentItem s = Some c"
      by (cases "currentItem s") (auto simp: truthy_def)
    with op pl loc(1) obtain vs vt where vs: "map_of (relics s) c = Some vs"
      and vt: "map_of (relics t) c = Some vt"
      by (metis openItemPresent_relics)
    from loc(3) obtain l ls where sp: "split '':'' line = ''**Location**'' # l # ls"
      using split_Location by blast
    from agree_update_relic [OF a vs vt]
    have "agree P R (s\<lparr>relics := AList.update c (vs\<lparr>location := trim l\<rparr>) (relics s)\<rparr>)
     (t\<lparr>relics := AList.update c (vt\<lparr>location := trim l\<rparr>) (relics t)\<rparr>)" .
    with loc pl c vs vt sp show ?thesis
      by (auto simp: handleRelicSection_hc_def Let_def getCurrent_def)
  next
    case reward
    then obtain c where c: "currentItem s = Some c"
      by (cases "currentItem s") (auto simp: truthy_def)
    with op pl reward(1) obtain vs vt where vs: "map_of (relics s) c = Some vs"
      and vt: "map_of (relics t) c = Some vt"
      by (metis openItemPresent_relics)
    from agree_update_relic [OF a vs vt]
    have "agree P R (s\<lparr>relics := AList.update c (vs\<lparr>rewards := rewards vs @ [parseRewardInfo_hc line]\<rparr>) (relics s)\<rparr>)
     (t\<lparr>relics := AList.update c (vt\<lparr>rewards := rewards vt @ [parseRewardInfo_hc line]\<rparr>) (relics t)\<rparr>)" .
    with reward pl c vs vt show ?thesis
      by (auto simp: handleRelicSection_hc_def Let_def getCurrent_def)
  next
    case none
    with a pl show ?thesis by (auto simp: handleRelicSection_hc_def)
  qed
qed

lemma handleLine_hc_agree:
  assumes a: "agree P R s t"
  shows "\<exists>s' t'. handleLine_hc line s = Inr s' \<and> handleLine_hc line t = Inr t' \<and> agree P R s' t'"
proof (cases "line = []")
  case True
  with a show ?thesis by (simp add: handleLine_hc_def)
next
  case ne: False
  from handleSectionHeaders_agree [OF a] obtain b1 s1 t1 where
    h1: "handleSectionHeaders line s = (b1, s1)" "handleSectionHeaders line t = (b1, t1)"
    and a1: "agree P R s1 t1" by blast
  from handlePrimeSection_hc_agree [OF a1] obtain b2 s2 t2 where
    h2: "handlePrimeSection_hc line s1 = Inr (b2, s2)" "handlePrimeSection_hc line t1 = Inr (b2, t2)"
    and a2: "agree P R s2 t2" by blast
  from handleRelicSection_hc_agree [OF a2] obtain b3 s3 t3 where
    h3: "handleRelicSection_hc line s2 = Inr (b3, s3)" "handleRelicSection_hc line t2 = Inr (b3, t3)"
    and a3: "agree P R s3 t3" by blast
  from ne h1 h2 h3 a1 a2 a3 show ?thesis
    by (cases b1; cases b2) (simp_all add: handleLine_hc_def)
qed

lemma run_hc_agree:
  assumes "agree P R s t"
  shows "\<exists>s' t'. run_hc ls s = Inr s' \<and> run_hc ls t = Inr t' \<and> agree P R s' t'"
  using assms
proof (induction ls arbitrary: s t)
  case Nil
  then show ?case by simp
next
  case (Cons l ls)
  from handleLine_hc_agree [OF Cons.prems] obtain s1 t1 where
    "handleLine_hc l s = Inr s1" "handleLine_hc l t = Inr t1" and a1: "agree P R s1 t1" by blast
  with Cons.IH [OF a1] show ?case by simp
qed

lemma handlePrimeSection_p0_agree:
  assumes a: "agree P R s t"
  shows "\<exists>b s' t'. handlePrimeSection_p0 line s = (b, s') \<and> handlePrimeSection_p0 line t = (b, t')
           \<and> agree P R s' t'"
proof -
  note pl = agree_same_place [OF a]
  from a have op: "openItemPresent s" "openItemPresent t" by (simp_all add: agree_def)
  consider (other) "currentSection s \<noteq> Some Primes"
    | (decl) "currentSection s = Some Primes" "startsWith line ''- '' \<and> \<not> includes_str line ''->''"
    | (part) "currentSection s = Some Primes" "\<not> (startsWith line ''- '' \<and> \<not> includes_str line ''->'')"
        "truthy (currentItem s)
          \<and> (startsWith line ''  - '' \<or> (startsWith line ''- '' \<and> includes_str line ''->''))"
    | (none) "currentSection s = Some Primes" "\<not> (startsWith line ''- '' \<and> \<not> includes_str line ''->'')"
        "\<not> (truthy (currentItem s)
          \<and> (startsWith line ''  - '' \<or> (startsWith line ''- '' \<and> includes_str line ''->'')))"
    by blast
  then show ?thesis
  proof cases
    case other
    with a pl show ?thesis by (auto simp: handlePrimeSection_p0_def)
  next
    case decl
    have "agree P R (s\<lparr>primes := AList.update c v (primes s), currentItem := Some c\<rparr>)
     (t\<lparr>primes := AList.update c v (primes t), currentItem := Some c\<rparr>)" for c v
      by (rule agree_declare_prime [OF a decl(1)])
    with a pl decl show ?thesis
      by (auto simp: handlePrimeSection_p0_def Let_def)
  next
    case part
    then obtain c where c: "currentItem s = Some c"
      by (cases "currentItem s") (auto simp: truthy_def)
    with op pl part(1) obtain vs vt where vs: "map_of (primes s) c = Some vs"
      and vt: "map_of (primes t) c = Some vt"
      by (metis openItemPresent_primes)
    show ?thesis
    proof (cases "parsePartInfo_p0 line")
      case (Inl e)
      with a part pl show ?thesis
        by (auto simp: handlePrimeSection_p0_def)
    next
      case (Inr partInfo)
      from agree_update_prime [OF a vs vt]
      have "agree P R (s\<lparr>primes := AList.update c (vs\<lparr>parts := parts vs @ [partInfo]\<rparr>) (primes s)\<rparr>)
       (t\<lparr>primes := AList.update c (vt\<lparr>parts := parts vt @ [partInfo]\<rparr>) (primes t)\<rparr>)" .
      with part pl c vs vt Inr show ?thesis
        by (auto simp: handlePrimeSection_p0_def Let_def getCurrent_def)
    qed
  next
    case none
    with a pl show ?thesis by (auto simp: handlePrimeSection_p0_def)
  qed
qed

lemma handleRelicSection_p0_agree:
  assumes a: "agree P R s t"
  shows "\<exists>b s' t'. handleRelicSection_p0 line s = Inr (b, s') \<and> handleRelicSection_p0 line t = Inr (b, t')
           \<and> agree P R s' t'"
proof -
  note pl = agree_same_place [OF a]
  from a have op: "openItemPresent s" "openItemPresent t" by (simp_all add: agree_def)
  consider (other) "currentSection s \<noteq> Some Relics"
    | (decl) "currentSection s = Some Relics" "startsWith line ''## ''"
    | (closed) "currentSection s = Some Relics" "\<not> startsWith line ''## ''"
        "\<not> truthy (currentItem s)"
    | (loc) "currentSection s = Some Relics" "\<not> startsWith line ''## ''"
        "truthy (currentItem s)" "startsWith line ''**Location**:''"
    | (reward) "currentSection s = Some Relics" "\<not> startsWith line ''## ''"
        "truthy (currentItem s)" "\<not> startsWith line ''**Location**:''" "startsWith line ''- ''"
    | (none) "currentSection s = Some Relics" "\<not> startsWith line ''## ''"
        "truthy (currentItem s)" "\<not> startsWith line ''**Location**:''" "\<not> startsWith line ''- ''"
    by blast
  then show ?thesis
  proof cases
    case other
    with a pl show ?thesis by (auto simp: handleRelicSection_p0_def)
  next
    case decl
    have "agree P R (s\<lparr>relics := AList.update c v (relics s), currentItem := Some c\<rparr>)
     (t\<lparr>relics := AList.update c v (relics t), currentItem := Some c\<rparr>)" for c v
      by (rule agree_declare_relic [OF a decl(1)])
    with a pl decl show ?thesis
      by (auto simp: handleRelicSection_p0_def Let_def)
  next
    case closed
    with a pl show ?thesis by (auto simp: handleRelicSection_p0_def)
  next
    case loc
    then obtain c where c: "currentItem s = Some c"
      by (cases "currentItem s") (auto simp: truthy_def)
    with op pl loc(1) obtain vs vt where vs: "map_of (relics s) c = Some vs"
      and vt: "map_of (relics t) c = Some vt"
      by (metis openItemPresent_relics)
    from agree_update_relic [OF a vs vt]
    have "agree P R (s\<lparr>relics := AList.update c (vs\<lparr>location := l\<rparr>) (relics s)\<rparr>)
     (t\<lparr>relics := AList.update c (vt\<lparr>location := l\<rparr>) (relics t)\<rparr>)" for l .
    with loc pl c vs vt show ?thesis
      by (auto simp: handleRelicSection_p0_def Let_def getCurrent_def)
  next
    case reward
    then obtain c where c: "currentItem s = Some c"
      by (cases "currentItem s") (auto simp: truthy_def)
    with op pl reward(1) obtain vs vt where vs: "map_of (relics s) c = Some vs"
      and vt: "map_of (relics t) c = Some vt"
      by (metis openItemPresent_relics)
    show ?thesis
    proof (cases "parseRewardInfo_p0 line")
      case (Inl e)
      with a reward pl show ?thesis
        by (auto simp: handleRelicSection_p0_def)
    next
      case (Inr rw)
      from agree_update_relic [OF a vs vt]
      have "agree P R (s\<lparr>relics := AList.update c (vs\<lparr>rewards := rewards vs @ [rw]\<rparr>) (relics s)\<rparr>)
       (t\<lparr>relics := AList.update c (vt\<lparr>rewards := rewards vt @ [rw]\<rparr>) (relics t)\<rparr>)" .
      with reward pl c vs vt Inr show ?thesis
        by (auto simp: handleRelicSection_p0_def Let_def getCurrent_def)
    qed
  next
    case none
    with a pl show ?thesis by (auto simp: handleRelicSection_p0_def)
  qed
qed

lemma handleLine_p0_agree:
  assumes a: "agree P R s t"
  shows "\<exists>s' t'. handleLine_p0 line s = Inr s' \<and> handleLine_p0 line t = Inr t' \<and> agree P R s' t'"
proof (cases "line = []")
  case True
  with a show ?thesis by (simp add: handleLine_p0_def)
next
  case ne: False
  from handleSectionHeaders_agree [OF a] obtain b1 s1 t1 where
    h1: "handleSectionHeaders line s = (b1, s1)" "handleSectionHeaders line t = (b1, t1)"
    and a1: "agree P R s1 t1" by blast
  from handlePrimeSection_p0_agree [OF a1] obtain b2 s2 t2 where
    h2: "handlePrimeSection_p0 line s1 = (b2, s2)" "handlePrimeSection_p0 line t1 = (b2, t2)"
    and a2: "agree P R s2 t2" by blast
  from handleRelicSection_p0_agree [OF a2] obtain b3 s3 t3 where
    h3: "handleRelicSection_p0 line s2 = Inr (b3, s3)" "handleRelicSection_p0 line t2 = Inr (b3, t3)"
    and a3: "agree P R s3 t3" by blast
  from ne h1 h2 h3 a1 a2 a3 show ?thesis
    by (cases b1; cases b2) (simp_all add: handleLine_p0_def)
qed

lemma run_p0_agree:
  assumes "agree P R s t"
  shows "\<exists>s' t'. run_p0 ls s = Inr s' \<and> run_p0 ls t = Inr t' \<and> agree P R s' t'"
  using assms
proof (induction ls arbitrary: s t)
  case Nil
  then show ?case by simp
next
  case (Cons l ls)
  from handleLine_p0_agree [OF Cons.prems] obtain s1 t1 where
    "handleLine_p0 l s = Inr s1" "handleLine_p0 l t = Inr t1" and a1: "agree P R s1 t1" by blast
  with Cons.IH [OF a1] show ?case by simp
qed

lemma openItemPresent_newParser: "openItemPresent newParser"
  by (simp add: openItemPresent_def newParser_def)

lemma agree_refl: "openItemPresent s \<Longrightarrow> agree P R s s"
  by (simp add: agree_def)

lemma run_hc_total:
  assumes "openItemPresent s"
  shows "\<exists>s'. run_hc ls s = Inr s' \<and> openItemPresent s'"
  using run_hc_agree [OF agree_refl [OF assms, of "{}" "{}"], of ls] by (auto simp: agree_def)

lemma run_p0_total:
  assumes "openItemPresent s"
  shows "\<exists>s'. run_p0 ls s = Inr s' \<and> openItemPresent s'"
  using run_p0_agree [OF agree_refl [OF assms, of "{}" "{}"], of ls] by (auto simp: agree_def)

lemma parse_total:
  "\<exists>r. parse_hc content = Inr r" "\<exists>r. parse_p0 content = Inr r"
  using run_hc_total [OF openItemPresent_newParser, of "linesOf content"]
    run_p0_total [OF openItemPresent_newParser, of "linesOf content"]
  by (auto simp: parse_hc_def parse_p0_def)

end
